theory Spec2Isabelle
  imports Main "HOL-Library.Multiset" "HOL-Library.Word"
begin

section \<open>MeetingSessionConfiguration: the values the constructor handles\<close>

text \<open>
  A JavaScript string is the sequence of its UTF-16 code units. \<open>str\<close> gives the
  code units of a literal written with ASCII (or Latin-1) characters.
\<close>

type_synonym jsstring = "16 word list"

definition str :: "string \<Rightarrow> jsstring" where
  "str s = map of_char s"

text \<open>
  The constructor of \<^verbatim>\<open>MeetingSessionConfiguration\<close> takes two arguments of type
  \<^verbatim>\<open>any\<close>. A raw argument is modelled by \<open>jsvalue\<close>: the JavaScript values a parsed
  service response (or an omitted argument) can be. An object is the list of its own
  enumerable properties in the order in which \<^verbatim>\<open>for (const key in ...)\<close> visits them;
  a well-formed object has no key twice. Numbers are kept as integers: the code only
  ever asks whether a number is truthy and what its class is.
\<close>

datatype jsvalue =
    JUndefined
  | JNull
  | JBoolean bool
  | JNumber int
  | JString jsstring
  | JArray "jsvalue list"
  | JObject "(jsstring \<times> jsvalue) list"

text \<open>
  \<^verbatim>\<open>toLowerCasePropertyNames\<close> returns a JavaScript \<^verbatim>\<open>Map\<close> whose values are strings or
  further \<^verbatim>\<open>Map\<close>s. Only \<^verbatim>\<open>set\<close> and \<^verbatim>\<open>forEach\<close> are used on it, and \<^verbatim>\<open>forEach\<close> only
  copies the entries into an object by key, so the \<^verbatim>\<open>Map\<close> is a partial function from
  keys to values.
\<close>

datatype mapvalue =
    MString jsstring
  | MMap "jsstring \<Rightarrow> mapvalue option"

text \<open>
  \<^verbatim>\<open>convertMapToObject\<close> returns \<^verbatim>\<open>JSON.parse(JSON.stringify(obj))\<close>: a plain object whose
  property values are strings or plain objects. The constructor only reads named
  properties of it, so such an object is a partial function from property names to
  values. \<open>VUndefined\<close> is what reading a missing property gives, \<open>VNull\<close> is the
  literal \<^verbatim>\<open>null\<close> of the field initialisers.
\<close>

datatype "value" =
    VUndefined
  | VNull
  | VString jsstring
  | VObject "jsstring \<Rightarrow> value option"

datatype error = TypeError

text \<open>Sequencing of steps that may throw.\<close>

definition bind_result :: "error + 'a \<Rightarrow> ('a \<Rightarrow> error + 'b) \<Rightarrow> error + 'b" where
  "bind_result r f = (case r of Inl e \<Rightarrow> Inl e | Inr v \<Rightarrow> f v)"

subsection \<open>Built-in operations of the language\<close>

text \<open>
  \<^verbatim>\<open>String.prototype.toLowerCase\<close> is the Unicode case conversion. On a string whose
  code units are all ASCII it maps the letters A to Z to a to z and leaves every
  other code unit as it is. On a string with a code unit outside ASCII the result
  comes from the Unicode case tables of the platform: the Kelvin sign U+212A becomes
  \<open>k\<close>, a capital E with acute becomes the small letter, one code unit can become
  two. Those tables are not part of the source, so the conversion of such strings is
  the parameter \<open>unicodeLowerCase\<close>: the normalization and the constructor take it as
  their first argument, and every property below is proved for every value of it,
  the platform's among them.
\<close>

definition toLowerCase_ascii :: "16 word \<Rightarrow> 16 word" where
  "toLowerCase_ascii c = (if 65 \<le> c \<and> c \<le> 90 then c + 32 else c)"

definition toLowerCase :: "(jsstring \<Rightarrow> jsstring) \<Rightarrow> jsstring \<Rightarrow> jsstring" where
  "toLowerCase unicodeLowerCase s =
     (if list_all (\<lambda>c. c < 128) s then map toLowerCase_ascii s else unicodeLowerCase s)"

text \<open>The condition of an \<^verbatim>\<open>if\<close>: which values count as true.\<close>

fun truthy :: "jsvalue \<Rightarrow> bool" where
  "truthy JUndefined = False"
| "truthy JNull = False"
| "truthy (JBoolean b) = b"
| "truthy (JNumber n) = (n \<noteq> 0)"
| "truthy (JString s) = (s \<noteq> [])"
| "truthy (JArray vs) = True"
| "truthy (JObject kvs) = True"

fun truthy_value :: "value \<Rightarrow> bool" where
  "truthy_value VUndefined = False"
| "truthy_value VNull = False"
| "truthy_value (VString s) = (s \<noteq> [])"
| "truthy_value (VObject m) = True"

text \<open>\<^verbatim>\<open>Object.prototype.toString.apply(v)\<close>; the class tag is only compared.\<close>

fun objectToString :: "jsvalue \<Rightarrow> string" where
  "objectToString JUndefined = ''[object Undefined]''"
| "objectToString JNull = ''[object Null]''"
| "objectToString (JBoolean b) = ''[object Boolean]''"
| "objectToString (JNumber n) = ''[object Number]''"
| "objectToString (JString s) = ''[object String]''"
| "objectToString (JArray vs) = ''[object Array]''"
| "objectToString (JObject kvs) = ''[object Object]''"

text \<open>The decimal spelling of an array or string index, as \<^verbatim>\<open>for ... in\<close> gives it.\<close>

fun digit_char :: "nat \<Rightarrow> 16 word" where
  "digit_char n = str ''0123456789'' ! (n mod 10)"

fun index_key :: "nat \<Rightarrow> jsstring" where
  "index_key n = (if n < 10 then [digit_char n] else index_key (n div 10) @ [digit_char n])"

text \<open>
  The pairs \<open>(key, jsonObject[key])\<close> that \<^verbatim>\<open>for (const key in jsonObject)\<close> visits, in
  order: the properties of an object, the indexed elements of an array, the indexed
  code units of a string, and nothing for every other value.
\<close>

fun for_in :: "jsvalue \<Rightarrow> (jsstring \<times> jsvalue) list" where
  "for_in (JObject kvs) = kvs"
| "for_in (JArray vs) = zip (map index_key [0..<length vs]) vs"
| "for_in (JString s) = zip (map index_key [0..<length s]) (map (\<lambda>c. JString [c]) s)"
| "for_in v = []"

text \<open>
  Reading a property \<open>v.name\<close>. Reading from \<^verbatim>\<open>undefined\<close> or \<^verbatim>\<open>null\<close> throws a
  \<^verbatim>\<open>TypeError\<close>; a missing property reads as \<^verbatim>\<open>undefined\<close>. The names the constructor
  reads (\<open>meeting\<close>, \<open>meetingid\<close>, \<open>mediaplacement\<close>, the six URL names, \<open>attendee\<close>,
  \<open>attendeeid\<close>, \<open>externaluserid\<close>, \<open>jointoken\<close>) are not properties of
  \<^verbatim>\<open>String.prototype\<close> or \<^verbatim>\<open>Object.prototype\<close>, so a string has none of them and an
  object has exactly its own.
\<close>

fun get_property :: "value \<Rightarrow> jsstring \<Rightarrow> error + value" where
  "get_property VUndefined name = Inl TypeError"
| "get_property VNull name = Inl TypeError"
| "get_property (VString s) name = Inr VUndefined"
| "get_property (VObject m) name = Inr (case m name of None \<Rightarrow> VUndefined | Some v \<Rightarrow> v)"

section \<open>The two private helpers\<close>

text \<open>
  \<^verbatim>\<open>toLowerCasePropertyNames\<close>: the loop over the keys is a fold over \<open>for_in\<close>, the
  \<^verbatim>\<open>Map\<close> \<open>output\<close> is the accumulator, \<^verbatim>\<open>output.set(k, v)\<close> is a map update.
\<close>

function toLowerCasePropertyNames ::
  "(jsstring \<Rightarrow> jsstring) \<Rightarrow> jsvalue \<Rightarrow> (jsstring \<Rightarrow> mapvalue option)" where
  "toLowerCasePropertyNames lower jsonObject =
     fold (\<lambda>(key, v) output.
             if objectToString v = ''[object Object]''
             then output(toLowerCase lower key \<mapsto> MMap (toLowerCasePropertyNames lower v))
             else if objectToString v = ''[object String]''
             then output(toLowerCase lower key \<mapsto> MString (case v of JString s \<Rightarrow> s))
             else output)
          (for_in jsonObject) Map.empty"
  by pat_completeness auto
termination
proof (relation "measure (\<lambda>(lower, jsonObject). size jsonObject)")
  show "wf (measure (\<lambda>(lower :: jsstring \<Rightarrow> jsstring, jsonObject :: jsvalue). size jsonObject))"
    by simp
next
  fix lower :: "jsstring \<Rightarrow> jsstring" and jsonObject :: jsvalue and e :: "jsstring \<times> jsvalue" and key v
  assume e: "e \<in> set (for_in jsonObject)" and kv: "(key, v) = e"
    and obj: "objectToString v = ''[object Object]''"
  have "size v < size jsonObject"
  proof (cases jsonObject)
    case (JObject kvs)
    with e kv have "(key, v) \<in> set kvs" by simp
    then have "size v < Suc (size_list (size_prod (\<lambda>_. 0) size) kvs)"
      by (induction kvs) auto
    with JObject show ?thesis by simp
  next
    case (JArray vs)
    with e kv have "v \<in> set vs" by (auto dest: set_zip_rightD)
    then have "size v < Suc (size_list size vs)"
      by (induction vs) auto
    with JArray show ?thesis by simp
  next
    case (JString s)
    with e kv obj show ?thesis by (auto dest!: set_zip_rightD)
  qed (use e in auto)
  then show "((lower, v), (lower, jsonObject)) \<in>
      measure (\<lambda>(lower :: jsstring \<Rightarrow> jsstring, jsonObject :: jsvalue). size jsonObject)"
    by simp
qed

declare toLowerCasePropertyNames.simps [simp del]

text \<open>
  \<^verbatim>\<open>convertMapToObject\<close>. \<open>convert_entry\<close> is the callback of \<^verbatim>\<open>map.forEach\<close>: a value
  that is a \<^verbatim>\<open>Map\<close> is converted in turn, a string is stored as it is. The assignment
  \<^verbatim>\<open>obj[key] = value\<close> with the key \<^verbatim>\<open>__proto__\<close> creates no own property (it runs the
  prototype setter of the fresh object), so \<^verbatim>\<open>JSON.stringify\<close> never sees that key and
  the parsed result does not have it. For every other key the round trip through
  \<^verbatim>\<open>JSON.stringify\<close> and \<^verbatim>\<open>JSON.parse\<close> gives back the strings and objects it was given.
\<close>

primrec convert_entry :: "mapvalue \<Rightarrow> value" where
  "convert_entry (MString s) = VString s"
| "convert_entry (MMap m) =
     VObject (\<lambda>key. if key = (str ''__proto__'') then None else map_option convert_entry (m key))"

definition convertMapToObject :: "(jsstring \<Rightarrow> mapvalue option) \<Rightarrow> value" where
  "convertMapToObject m = convert_entry (MMap m)"

section \<open>The configuration record\<close>

text \<open>
  Modelled from the spec: the classes \<^verbatim>\<open>MeetingSessionURLs\<close> and
  \<^verbatim>\<open>MeetingSessionCredentials\<close> are imported, their files are not among the
  sources. The spec treats them as plain structured records: six named URL slots,
  and an attendee id, an external user id and a join token, every slot absent
  (\<^verbatim>\<open>null\<close>) in a freshly constructed record. The constructor assigns every slot.
\<close>

record MeetingSessionURLs =
  audioHostURL :: "value"
  screenDataURL :: "value"
  screenSharingURL :: "value"
  screenViewingURL :: "value"
  signalingURL :: "value"
  turnControlURL :: "value"

definition new_MeetingSessionURLs :: MeetingSessionURLs where
  "new_MeetingSessionURLs =
     \<lparr>audioHostURL = VNull, screenDataURL = VNull, screenSharingURL = VNull,
      screenViewingURL = VNull, signalingURL = VNull, turnControlURL = VNull\<rparr>"

record MeetingSessionCredentials =
  attendeeId :: "value"
  externalUserId :: "value"
  joinToken :: "value"

definition new_MeetingSessionCredentials :: MeetingSessionCredentials where
  "new_MeetingSessionCredentials =
     \<lparr>attendeeId = VNull, externalUserId = VNull, joinToken = VNull\<rparr>"

text \<open>
  Modelled from the spec: the bandwidth policy classes, the connection health policy
  configuration and the screen sharing options are external collaborators. A policy
  instance is the identifier its constructor was called with; the health policy
  configuration is the default-constructed one; the screen sharing options are an
  optional bit rate.
\<close>

datatype VideoDownlinkBandwidthPolicy = AllHighestVideoBandwidthPolicy "value"

datatype VideoUplinkBandwidthPolicy = NScaleVideoUplinkBandwidthPolicy "value"

datatype ConnectionHealthPolicyConfiguration = new_ConnectionHealthPolicyConfiguration

record ScreenSharingSessionOptions =
  bitRate :: "int option"

text \<open>
  The fields of the class. A field declared \<^verbatim>\<open>T | null\<close> that holds an instance of
  another class is an \<open>option\<close> (\<open>None\<close> is \<^verbatim>\<open>null\<close>); \<open>meetingId\<close> is assigned whatever
  the response holds, so it is a \<open>value\<close>.
\<close>

record MeetingSessionConfiguration =
  meetingId :: "value"
  credentials :: "MeetingSessionCredentials option"
  urls :: "MeetingSessionURLs option"
  connectionTimeoutMs :: int
  screenSharingTimeoutMs :: int
  screenViewingTimeoutMs :: int
  attendeePresenceTimeoutMs :: int
  screenSharingSessionOptions :: ScreenSharingSessionOptions
  connectionHealthPolicyConfiguration :: ConnectionHealthPolicyConfiguration
  enableWebAudio :: bool
  enableUnifiedPlanForChromiumBasedBrowsers :: bool
  enableSimulcastForUnifiedPlanChromiumBasedBrowsers :: bool
  videoDownlinkBandwidthPolicy :: "VideoDownlinkBandwidthPolicy option"
  videoUplinkBandwidthPolicy :: "VideoUplinkBandwidthPolicy option"

text \<open>The field initialisers (lines 22 to 91), which run before the constructor body.\<close>

definition field_initializers :: MeetingSessionConfiguration where
  "field_initializers =
     \<lparr>meetingId = VNull,
      credentials = None,
      urls = None,
      connectionTimeoutMs = 15000,
      screenSharingTimeoutMs = 5000,
      screenViewingTimeoutMs = 5000,
      attendeePresenceTimeoutMs = 0,
      screenSharingSessionOptions = \<lparr>bitRate = None\<rparr>,
      connectionHealthPolicyConfiguration = new_ConnectionHealthPolicyConfiguration,
      enableWebAudio = False,
      enableUnifiedPlanForChromiumBasedBrowsers = True,
      enableSimulcastForUnifiedPlanChromiumBasedBrowsers = False,
      videoDownlinkBandwidthPolicy = None,
      videoUplinkBandwidthPolicy = None\<rparr>"

section \<open>The constructor\<close>

text \<open>A chain of property reads \<open>v.a.b\<close>; the first read from \<^verbatim>\<open>undefined\<close> throws.\<close>

fun get_path :: "value \<Rightarrow> jsstring list \<Rightarrow> error + value" where
  "get_path v [] = Inr v"
| "get_path v (name # names) = bind_result (get_property v name) (\<lambda>w. get_path w names)"

text \<open>
  Lines 150 to 152 and 163 to 165: if the response has a truthy property \<open>root\<close>, the
  working response becomes that property.
\<close>

definition unwrap :: "jsstring \<Rightarrow> value \<Rightarrow> error + value" where
  "unwrap root response =
     bind_result (get_property response root) (\<lambda>inner.
       if truthy_value inner then get_property response root else Inr response)"

text \<open>Lines 147 to 160, on the normalized meeting response.\<close>

definition read_meeting ::
  "value \<Rightarrow> MeetingSessionConfiguration \<Rightarrow> error + MeetingSessionConfiguration" where
  "read_meeting normalized this =
     bind_result (unwrap (str ''meeting'') normalized) (\<lambda>response.
     bind_result (get_property response (str ''meetingid'')) (\<lambda>mid.
     bind_result (get_path response [(str ''mediaplacement''), (str ''audiohosturl'')]) (\<lambda>u1.
     bind_result (get_path response [(str ''mediaplacement''), (str ''screendataurl'')]) (\<lambda>u2.
     bind_result (get_path response [(str ''mediaplacement''), (str ''screensharingurl'')]) (\<lambda>u3.
     bind_result (get_path response [(str ''mediaplacement''), (str ''screenviewingurl'')]) (\<lambda>u4.
     bind_result (get_path response [(str ''mediaplacement''), (str ''signalingurl'')]) (\<lambda>u5.
     bind_result (get_path response [(str ''mediaplacement''), (str ''turncontrolurl'')]) (\<lambda>u6.
       Inr (this\<lparr>meetingId := mid,
                 urls := Some (new_MeetingSessionURLs
                   \<lparr>audioHostURL := u1, screenDataURL := u2, screenSharingURL := u3,
                    screenViewingURL := u4, signalingURL := u5,
                    turnControlURL := u6\<rparr>)\<rparr>)))))))))"

text \<open>Lines 163 to 169, on the normalized attendee response.\<close>

definition read_attendee ::
  "value \<Rightarrow> MeetingSessionConfiguration \<Rightarrow> error + MeetingSessionConfiguration" where
  "read_attendee normalized this =
     bind_result (unwrap (str ''attendee'') normalized) (\<lambda>response.
     bind_result (get_property response (str ''attendeeid'')) (\<lambda>c1.
     bind_result (get_property response (str ''externaluserid'')) (\<lambda>c2.
     bind_result (get_property response (str ''jointoken'')) (\<lambda>c3.
       Inr (this\<lparr>credentials := Some (new_MeetingSessionCredentials
                   \<lparr>attendeeId := c1, externalUserId := c2, joinToken := c3\<rparr>)\<rparr>)))))"

text \<open>
  Lines 171 to 181. \<open>sendsOnlyKeyframes\<close> is the answer of
  \<^verbatim>\<open>new DefaultBrowserBehavior().screenShareSendsOnlyKeyframes()\<close>, an external
  collaborator.
\<close>

definition self_attendee_id :: "MeetingSessionConfiguration \<Rightarrow> value" where
  "self_attendee_id this =
     (case credentials this of Some c \<Rightarrow> attendeeId c | None \<Rightarrow> VNull)"

definition select_defaults ::
  "bool \<Rightarrow> MeetingSessionConfiguration \<Rightarrow> MeetingSessionConfiguration" where
  "select_defaults sendsOnlyKeyframes this =
     (let this = (if sendsOnlyKeyframes
                  then this\<lparr>screenSharingSessionOptions := \<lparr>bitRate = Some 384000\<rparr>\<rparr>
                  else this);
          this = this\<lparr>videoDownlinkBandwidthPolicy :=
                        Some (AllHighestVideoBandwidthPolicy (self_attendee_id this))\<rparr>
      in this\<lparr>videoUplinkBandwidthPolicy :=
                 Some (NScaleVideoUplinkBandwidthPolicy (self_attendee_id this))\<rparr>)"

text \<open>
  The constructor (lines 140 to 182). A truthy response is replaced by its normalized
  object, which is an object and therefore truthy in the later test of the same
  variable; a falsy response stays as it is and fails that test again.
\<close>

definition MeetingSessionConfiguration_constructor ::
  "(jsstring \<Rightarrow> jsstring) \<Rightarrow> bool \<Rightarrow> jsvalue \<Rightarrow> jsvalue \<Rightarrow>
   error + MeetingSessionConfiguration" where
  "MeetingSessionConfiguration_constructor lower sendsOnlyKeyframes createMeetingResponse
       createAttendeeResponse =
     (let attendee =
            (if truthy createAttendeeResponse
             then Some (convertMapToObject (toLowerCasePropertyNames lower createAttendeeResponse))
             else None)
      in
      bind_result
        (if truthy createMeetingResponse
         then read_meeting
                (convertMapToObject (toLowerCasePropertyNames lower createMeetingResponse))
                field_initializers
         else Inr field_initializers) (\<lambda>this.
      bind_result
        (case attendee of
           Some normalized \<Rightarrow> read_attendee normalized this
         | None \<Rightarrow> Inr this) (\<lambda>this.
      Inr (select_defaults sendsOnlyKeyframes this))))"

section \<open>Notions used to state the properties\<close>

text \<open>
  What one round of the loop of \<^verbatim>\<open>toLowerCasePropertyNames\<close> stores under the
  lower-cased key for a property value \<open>v\<close>: the normalized nested structure for an
  object, the string itself for a string, and nothing for every other value.
\<close>

definition stored_value :: "(jsstring \<Rightarrow> jsstring) \<Rightarrow> jsvalue \<Rightarrow> mapvalue option" where
  "stored_value lower v =
     (if objectToString v = ''[object Object]''
      then Some (MMap (toLowerCasePropertyNames lower v))
      else if objectToString v = ''[object String]''
      then Some (MString (case v of JString s \<Rightarrow> s))
      else None)"

definition store_entry ::
  "(jsstring \<Rightarrow> jsstring) \<Rightarrow> jsstring \<times> jsvalue \<Rightarrow> (jsstring \<Rightarrow> mapvalue option) \<Rightarrow>
   (jsstring \<Rightarrow> mapvalue option)" where
  "store_entry lower e output =
     (case stored_value lower (snd e) of
        None \<Rightarrow> output
      | Some w \<Rightarrow> output(toLowerCase lower (fst e) \<mapsto> w))"

text \<open>
  The values the normalization keeps, and a raw structure with every property of any
  other value removed, at every nesting level.
\<close>

fun kept :: "jsvalue \<Rightarrow> bool" where
  "kept (JString s) = True"
| "kept (JObject kvs) = True"
| "kept v = False"

function prune :: "jsvalue \<Rightarrow> jsvalue" where
  "prune (JObject kvs) =
     JObject (map (\<lambda>(key, v). (key, prune v)) (filter (\<lambda>(key, v). kept v) kvs))"
| "prune JUndefined = JUndefined"
| "prune JNull = JNull"
| "prune (JBoolean b) = JBoolean b"
| "prune (JNumber n) = JNumber n"
| "prune (JString s) = JString s"
| "prune (JArray vs) = JArray vs"
  by pat_completeness auto
termination
proof (relation "measure size")
  show "wf (measure size)" by simp
next
  fix kvs :: "(jsstring \<times> jsvalue) list" and e :: "jsstring \<times> jsvalue" and key v
  assume "e \<in> set (filter (\<lambda>(key, v). kept v) kvs)" and "(key, v) = e"
  then have "(key, v) \<in> set kvs" by simp
  then have "size v < Suc (size_list (size_prod (\<lambda>_. 0) size) kvs)"
    by (induction kvs) auto
  then show "(v, JObject kvs) \<in> measure size" by simp
qed

text \<open>
  What the last property of \<open>kvs\<close>, in visiting order, whose key lower-cases to \<open>k'\<close>
  and whose value is kept stores; nothing when there is no such property.
\<close>

definition last_stored ::
  "(jsstring \<Rightarrow> jsstring) \<Rightarrow> (jsstring \<times> jsvalue) list \<Rightarrow> jsstring \<Rightarrow> mapvalue option" where
  "last_stored lower kvs k' =
     (case find (\<lambda>e. toLowerCase lower (fst e) = k' \<and> kept (snd e)) (rev kvs) of
        None \<Rightarrow> None
      | Some e \<Rightarrow> stored_value lower (snd e))"

text \<open>
  Reordering the keys of a raw structure, at any nesting level: two neighbouring
  properties of an object change places, or the value of one property is itself
  reordered, any number of times. Two neighbours keep their relative order only when
  their keys have the same lower-casing and both hold a value the normalization
  keeps (a string or a nested structure) and the two store different values.
\<close>

inductive reordered :: "(jsstring \<Rightarrow> jsstring) \<Rightarrow> jsvalue \<Rightarrow> jsvalue \<Rightarrow> bool"
  for lower :: "jsstring \<Rightarrow> jsstring" where
  same: "reordered lower v v"
| swap: "toLowerCase lower (fst e) \<noteq> toLowerCase lower (fst e') \<or> \<not> kept (snd e) \<or>
           \<not> kept (snd e') \<or> stored_value lower (snd e) = stored_value lower (snd e') \<Longrightarrow>
         reordered lower (JObject (xs @ e # e' # ys)) (JObject (xs @ e' # e # ys))"
| inside: "reordered lower v w \<Longrightarrow>
           reordered lower (JObject (xs @ (key, v) # ys)) (JObject (xs @ (key, w) # ys))"
| step: "reordered lower u v \<Longrightarrow> reordered lower v w \<Longrightarrow> reordered lower u w"

section \<open>Evaluation\<close>

text \<open>
  The closed evaluations below use keys written in ASCII, for which the Unicode
  conversion is never consulted (\<open>toLowerCase_ascii_only\<close>); \<open>id\<close> stands for it
  there. The same evaluations hold for every conversion
  (\<open>missing_mediaplacement_faults\<close>, \<open>partially_populated_records\<close>,
  \<open>key_order_decides\<close>).
\<close>

lemma toLowerCase_ascii_only:
  "list_all (\<lambda>c. c < 128) s \<Longrightarrow> toLowerCase lower s = toLowerCase lower' s"
  by (simp add: toLowerCase_def)

lemma code_unit_eq_iff: "(of_char c :: 16 word) = of_char d \<longleftrightarrow> c = d"
proof
  assume a: "(of_char c :: 16 word) = of_char d"
  have lt: "(of_char e :: nat) < 2 ^ 16" for e
    by (rule less_trans [OF nat_of_char_less_256]) simp
  from a have "unat (of_nat (of_char c :: nat) :: 16 word) =
               unat (of_nat (of_char d :: nat) :: 16 word)"
    by (simp add: of_nat_of_char)
  with lt [of c] lt [of d] have "(of_char c :: nat) = of_char d"
    by (simp add: unat_of_nat)
  then show "c = d" by simp
qed simp

lemma str_eq_iff [simp]: "str a = str b \<longleftrightarrow> a = b"
  unfolding str_def by (rule inj_map_eq_map) (simp add: inj_def code_unit_eq_iff)

lemmas constructor_defs =
  toLowerCasePropertyNames.simps MeetingSessionConfiguration_constructor_def read_meeting_def read_attendee_def unwrap_def
  bind_result_def convertMapToObject_def toLowerCase_def toLowerCase_ascii_def str_def
  select_defaults_def self_attendee_id_def field_initializers_def
  new_MeetingSessionURLs_def new_MeetingSessionCredentials_def

section \<open>What a normalized response is, and the two reading steps\<close>

lemma get_property_normalized:
  assumes "r \<in> range convert_entry"
  shows "\<exists>y. get_property r name = Inr y \<and> (y = VUndefined \<or> y \<in> range convert_entry)"
proof -
  from assms obtain x where r: "r = convert_entry x" by blast
  show ?thesis
  proof (cases x)
    case (MString s)
    with r show ?thesis by simp
  next
    case (MMap M)
    with r show ?thesis by (auto split: option.splits)
  qed
qed

lemma unwrap_normalized:
  assumes "r \<in> range convert_entry"
  shows "\<exists>w. unwrap root r = Inr w \<and> w \<in> range convert_entry"
proof -
  from get_property_normalized [OF assms, of root]
  obtain y where y: "get_property r root = Inr y" "y = VUndefined \<or> y \<in> range convert_entry"
    by blast
  show ?thesis
  proof (cases "truthy_value y")
    case True
    with y have "y \<in> range convert_entry" by auto
    with y True show ?thesis by (simp add: unwrap_def bind_result_def)
  next
    case False
    with y assms show ?thesis by (simp add: unwrap_def bind_result_def)
  qed
qed

lemma convertMapToObject_normalized: "convertMapToObject M \<in> range convert_entry"
  unfolding convertMapToObject_def by (rule rangeI)

lemma read_attendee_total:
  "\<exists>r c1 c2 c3. unwrap (str ''attendee'') (convertMapToObject M) = Inr r
     \<and> get_property r (str ''attendeeid'') = Inr c1
     \<and> get_property r (str ''externaluserid'') = Inr c2
     \<and> get_property r (str ''jointoken'') = Inr c3
     \<and> read_attendee (convertMapToObject M) this =
         Inr (this\<lparr>credentials := Some \<lparr>attendeeId = c1, externalUserId = c2, joinToken = c3\<rparr>\<rparr>)"
proof -
  from unwrap_normalized [OF convertMapToObject_normalized, of "(str ''attendee'')" M]
  obtain r where r: "unwrap (str ''attendee'') (convertMapToObject M) = Inr r" "r \<in> range convert_entry"
    by blast
  from get_property_normalized [OF r(2)] obtain c1 c2 c3 where
    "get_property r (str ''attendeeid'') = Inr c1" "get_property r (str ''externaluserid'') = Inr c2"
    "get_property r (str ''jointoken'') = Inr c3" by metis
  with r(1) show ?thesis
    by (simp add: read_attendee_def bind_result_def new_MeetingSessionCredentials_def)
qed

lemma read_meeting_cases:
  "\<exists>r mid mp. unwrap (str ''meeting'') (convertMapToObject M) = Inr r
     \<and> get_property r (str ''meetingid'') = Inr mid
     \<and> get_property r (str ''mediaplacement'') = Inr mp
     \<and> (if mp = VUndefined then read_meeting (convertMapToObject M) this = Inl TypeError
        else \<exists>u1 u2 u3 u4 u5 u6.
          get_property mp (str ''audiohosturl'') = Inr u1 \<and>
          get_property mp (str ''screendataurl'') = Inr u2 \<and>
          get_property mp (str ''screensharingurl'') = Inr u3 \<and>
          get_property mp (str ''screenviewingurl'') = Inr u4 \<and>
          get_property mp (str ''signalingurl'') = Inr u5 \<and>
          get_property mp (str ''turncontrolurl'') = Inr u6 \<and>
          read_meeting (convertMapToObject M) this =
            Inr (this\<lparr>meetingId := mid,
                 urls := Some \<lparr>audioHostURL = u1, screenDataURL = u2, screenSharingURL = u3,
                    screenViewingURL = u4, signalingURL = u5, turnControlURL = u6\<rparr>\<rparr>))"
proof -
  from unwrap_normalized [OF convertMapToObject_normalized, of "(str ''meeting'')" M]
  obtain r where r: "unwrap (str ''meeting'') (convertMapToObject M) = Inr r" "r \<in> range convert_entry"
    by blast
  from get_property_normalized [OF r(2)] obtain mid where
    mid: "get_property r (str ''meetingid'') = Inr mid" by metis
  from get_property_normalized [OF r(2), of "(str ''mediaplacement'')"] obtain mp where
    mp: "get_property r (str ''mediaplacement'') = Inr mp" "mp = VUndefined \<or> mp \<in> range convert_entry"
    by blast
  show ?thesis
  proof (cases "mp = VUndefined")
    case True
    with r(1) mid mp(1) have "read_meeting (convertMapToObject M) this = Inl TypeError"
      by (simp add: read_meeting_def bind_result_def)
    with r(1) mid mp(1) True show ?thesis by simp
  next
    case False
    with mp(2) have n: "mp \<in> range convert_entry" by simp
    from get_property_normalized [OF n] obtain u1 u2 u3 u4 u5 u6 where u:
      "get_property mp (str ''audiohosturl'') = Inr u1"
      "get_property mp (str ''screendataurl'') = Inr u2"
      "get_property mp (str ''screensharingurl'') = Inr u3"
      "get_property mp (str ''screenviewingurl'') = Inr u4"
      "get_property mp (str ''signalingurl'') = Inr u5"
      "get_property mp (str ''turncontrolurl'') = Inr u6" by metis
    with r(1) mid mp(1) have "read_meeting (convertMapToObject M) this =
            Inr (this\<lparr>meetingId := mid,
                 urls := Some \<lparr>audioHostURL = u1, screenDataURL = u2, screenSharingURL = u3,
                    screenViewingURL = u4, signalingURL = u5, turnControlURL = u6\<rparr>\<rparr>)"
      by (simp add: read_meeting_def bind_result_def new_MeetingSessionURLs_def)
    with r(1) mid mp(1) False u show ?thesis by simp
  qed
qed


lemma constructor_falsy_meeting:
  "\<not> truthy m \<Longrightarrow>
   MeetingSessionConfiguration_constructor lower k m a =
     (if truthy a
      then map_sum id (select_defaults k)
             (read_attendee (convertMapToObject (toLowerCasePropertyNames lower a)) field_initializers)
      else Inr (select_defaults k field_initializers))"
  by (simp add: MeetingSessionConfiguration_constructor_def bind_result_def split: sum.splits)

lemma constructor_truthy_meeting:
  "truthy m \<Longrightarrow>
   MeetingSessionConfiguration_constructor lower k m a =
     bind_result (read_meeting (convertMapToObject (toLowerCasePropertyNames lower m)) field_initializers)
       (\<lambda>this. if truthy a
          then map_sum id (select_defaults k)
                 (read_attendee (convertMapToObject (toLowerCasePropertyNames lower a)) this)
          else Inr (select_defaults k this))"
  by (simp add: MeetingSessionConfiguration_constructor_def bind_result_def split: sum.splits)

lemma select_defaults_fields:
  "meetingId (select_defaults k this) = meetingId this"
  "urls (select_defaults k this) = urls this"
  "credentials (select_defaults k this) = credentials this"
  "videoDownlinkBandwidthPolicy (select_defaults k this) =
     Some (AllHighestVideoBandwidthPolicy (self_attendee_id this))"
  "videoUplinkBandwidthPolicy (select_defaults k this) =
     Some (NScaleVideoUplinkBandwidthPolicy (self_attendee_id this))"
  by (simp_all add: select_defaults_def Let_def self_attendee_id_def)

text \<open>The shape of every completed construction.\<close>

lemma constructor_completed:
  assumes "MeetingSessionConfiguration_constructor lower k m a = Inr c"
  shows "\<exists>this. c = select_defaults k this
     \<and> (if truthy m
        then \<exists>r mid mp u1 u2 u3 u4 u5 u6.
          unwrap (str ''meeting'') (convertMapToObject (toLowerCasePropertyNames lower m)) = Inr r \<and>
          get_property r (str ''meetingid'') = Inr mid \<and>
          get_property r (str ''mediaplacement'') = Inr mp \<and> mp \<noteq> VUndefined \<and>
          get_property mp (str ''audiohosturl'') = Inr u1 \<and>
          get_property mp (str ''screendataurl'') = Inr u2 \<and>
          get_property mp (str ''screensharingurl'') = Inr u3 \<and>
          get_property mp (str ''screenviewingurl'') = Inr u4 \<and>
          get_property mp (str ''signalingurl'') = Inr u5 \<and>
          get_property mp (str ''turncontrolurl'') = Inr u6 \<and>
          meetingId this = mid \<and>
          urls this = Some \<lparr>audioHostURL = u1, screenDataURL = u2, screenSharingURL = u3,
                    screenViewingURL = u4, signalingURL = u5, turnControlURL = u6\<rparr>
        else meetingId this = VNull \<and> urls this = None)
     \<and> (if truthy a
        then \<exists>r c1 c2 c3.
          unwrap (str ''attendee'') (convertMapToObject (toLowerCasePropertyNames lower a)) = Inr r \<and>
          get_property r (str ''attendeeid'') = Inr c1 \<and>
          get_property r (str ''externaluserid'') = Inr c2 \<and>
          get_property r (str ''jointoken'') = Inr c3 \<and>
          credentials this = Some \<lparr>attendeeId = c1, externalUserId = c2, joinToken = c3\<rparr>
        else credentials this = None)"
proof -
  obtain this0 where this0:
    "(if truthy m
      then read_meeting (convertMapToObject (toLowerCasePropertyNames lower m)) field_initializers
      else Inr field_initializers) = Inr this0"
    using assms
    by (cases "truthy m")
       (auto simp: constructor_truthy_meeting constructor_falsy_meeting bind_result_def
             split: sum.splits)
  have c: "(if truthy a
            then map_sum id (select_defaults k)
                   (read_attendee (convertMapToObject (toLowerCasePropertyNames lower a)) this0)
            else Inr (select_defaults k this0)) = Inr c"
    using assms this0
    by (cases "truthy m")
       (auto simp: constructor_truthy_meeting constructor_falsy_meeting bind_result_def
             split: sum.splits if_splits)
  have m: "credentials this0 = None \<and> (if truthy m
        then \<exists>r mid mp u1 u2 u3 u4 u5 u6.
          unwrap (str ''meeting'') (convertMapToObject (toLowerCasePropertyNames lower m)) = Inr r \<and>
          get_property r (str ''meetingid'') = Inr mid \<and>
          get_property r (str ''mediaplacement'') = Inr mp \<and> mp \<noteq> VUndefined \<and>
          get_property mp (str ''audiohosturl'') = Inr u1 \<and>
          get_property mp (str ''screendataurl'') = Inr u2 \<and>
          get_property mp (str ''screensharingurl'') = Inr u3 \<and>
          get_property mp (str ''screenviewingurl'') = Inr u4 \<and>
          get_property mp (str ''signalingurl'') = Inr u5 \<and>
          get_property mp (str ''turncontrolurl'') = Inr u6 \<and>
          meetingId this0 = mid \<and>
          urls this0 = Some \<lparr>audioHostURL = u1, screenDataURL = u2, screenSharingURL = u3,
                    screenViewingURL = u4, signalingURL = u5, turnControlURL = u6\<rparr>
        else meetingId this0 = VNull \<and> urls this0 = None)"
  proof (cases "truthy m")
    case True
    from read_meeting_cases [of "toLowerCasePropertyNames lower m" field_initializers] this0 True
    show ?thesis
      by (auto simp: field_initializers_def split: if_splits)
  next
    case False
    with this0 show ?thesis by (auto simp: field_initializers_def)
  qed
  show ?thesis
  proof (cases "truthy a")
    case False
    with c have "c = select_defaults k this0" by simp
    then show ?thesis using m False by auto
  next
    case True
    from read_attendee_total [of "toLowerCasePropertyNames lower a" this0]
    obtain r c1 c2 c3 where ra:
      "unwrap (str ''attendee'') (convertMapToObject (toLowerCasePropertyNames lower a)) = Inr r"
      "get_property r (str ''attendeeid'') = Inr c1"
      "get_property r (str ''externaluserid'') = Inr c2"
      "get_property r (str ''jointoken'') = Inr c3"
      "read_attendee (convertMapToObject (toLowerCasePropertyNames lower a)) this0 =
         Inr (this0\<lparr>credentials := Some \<lparr>attendeeId = c1, externalUserId = c2, joinToken = c3\<rparr>\<rparr>)"
      by blast
    let ?t = "this0\<lparr>credentials := Some \<lparr>attendeeId = c1, externalUserId = c2, joinToken = c3\<rparr>\<rparr>"
    from c True ra(5) have "c = select_defaults k ?t" by simp
    moreover have "meetingId ?t = meetingId this0" "urls ?t = urls this0" by simp_all
    ultimately show ?thesis using m True ra(1-4)
      by (intro exI [of _ ?t]) (auto split: if_splits)
  qed
qed

section \<open>Defaults\<close>

text \<open>
  C4. When both arguments are absent, construction completes, the meeting identifier,
  the credentials and the URLs are absent, and the timeouts and feature flags have
  their declared defaults: 15000, 5000, 5000, 0, no WebAudio, unified plan enabled,
  simulcast disabled.
\<close>

theorem defaults_when_both_absent:
  "\<exists>c. MeetingSessionConfiguration_constructor lower sendsOnlyKeyframes JUndefined JUndefined = Inr c
     \<and> meetingId c = VNull \<and> credentials c = None \<and> urls c = None
     \<and> connectionTimeoutMs c = 15000
     \<and> screenSharingTimeoutMs c = 5000
     \<and> screenViewingTimeoutMs c = 5000
     \<and> attendeePresenceTimeoutMs c = 0
     \<and> enableWebAudio c = False
     \<and> enableUnifiedPlanForChromiumBasedBrowsers c = True
     \<and> enableSimulcastForUnifiedPlanChromiumBasedBrowsers c = False"
  by (simp add: constructor_defs Let_def)

section \<open>Scenario 1\<close>

text \<open>
  C7. For the wrapped meeting response of Scenario 1 and no attendee response,
  construction yields the meeting identifier \<open>m1\<close>, the six URLs \<open>a\<close> to \<open>f\<close> in their
  named slots, and no credentials.
\<close>

theorem scenario_1:
  "\<exists>c. MeetingSessionConfiguration_constructor lower sendsOnlyKeyframes
         (JObject [(str ''Meeting'', JObject
            [(str ''MeetingId'', JString (str ''m1'')),
             (str ''MediaPlacement'', JObject
                [(str ''AudioHostUrl'', JString (str ''a'')),
                 (str ''ScreenDataUrl'', JString (str ''b'')),
                 (str ''ScreenSharingUrl'', JString (str ''c'')),
                 (str ''ScreenViewingUrl'', JString (str ''d'')),
                 (str ''SignalingUrl'', JString (str ''e'')),
                 (str ''TurnControlUrl'', JString (str ''f''))])])])
         JUndefined = Inr c
     \<and> meetingId c = VString (str ''m1'')
     \<and> urls c = Some \<lparr>audioHostURL = VString (str ''a''), screenDataURL = VString (str ''b''),
                      screenSharingURL = VString (str ''c''), screenViewingURL = VString (str ''d''),
                      signalingURL = VString (str ''e''), turnControlURL = VString (str ''f'')\<rparr>
     \<and> credentials c = None"
  by (simp add: constructor_defs Let_def)

section \<open>Default bandwidth policies\<close>

text \<open>
  C10. After every construction that completes, both the downlink and the uplink
  bandwidth policy are policy instances and not absent, whatever the two inputs
  were, although the field declarations initialise both to \<^verbatim>\<open>null\<close>.
\<close>

theorem policies_always_constructed:
  assumes "MeetingSessionConfiguration_constructor lower sendsOnlyKeyframes m a = Inr c"
  shows "videoDownlinkBandwidthPolicy c \<noteq> None \<and> videoUplinkBandwidthPolicy c \<noteq> None
     \<and> videoDownlinkBandwidthPolicy field_initializers = None
     \<and> videoUplinkBandwidthPolicy field_initializers = None"
proof -
  from constructor_completed [OF assms] obtain this
    where "c = select_defaults sendsOnlyKeyframes this" by blast
  then show ?thesis
    by (simp add: select_defaults_fields field_initializers_def)
qed

theorem policies_always_constructed_witness:
  "MeetingSessionConfiguration_constructor id False JUndefined JUndefined =
     Inr (select_defaults False field_initializers)
   \<and> videoDownlinkBandwidthPolicy (select_defaults False field_initializers) \<noteq> None
   \<and> videoUplinkBandwidthPolicy (select_defaults False field_initializers) \<noteq> None"
proof -
  have h: "MeetingSessionConfiguration_constructor id False JUndefined JUndefined =
     Inr (select_defaults False field_initializers)"
    by (simp add: constructor_falsy_meeting)
  from policies_always_constructed [OF h] h show ?thesis by simp
qed

text \<open>
  C5. In every completed construction with a supplied attendee response whose resolved
  \<open>attendeeid\<close> field is the string \<open>X\<close>, both default bandwidth policies are
  constructed with the identifier \<open>X\<close>; when the attendee response is absent, both are
  constructed with the absent identifier \<^verbatim>\<open>null\<close>.
\<close>

theorem attendee_id_propagation:
  assumes "MeetingSessionConfiguration_constructor lower sendsOnlyKeyframes m a = Inr c"
  shows "(truthy a \<longrightarrow>
            (\<forall>r X. unwrap (str ''attendee'') (convertMapToObject (toLowerCasePropertyNames lower a)) = Inr r
               \<longrightarrow> get_property r (str ''attendeeid'') = Inr (VString X)
               \<longrightarrow> videoDownlinkBandwidthPolicy c = Some (AllHighestVideoBandwidthPolicy (VString X))
                 \<and> videoUplinkBandwidthPolicy c = Some (NScaleVideoUplinkBandwidthPolicy (VString X))))
       \<and> (a = JUndefined \<longrightarrow>
            videoDownlinkBandwidthPolicy c = Some (AllHighestVideoBandwidthPolicy VNull)
          \<and> videoUplinkBandwidthPolicy c = Some (NScaleVideoUplinkBandwidthPolicy VNull))"
proof -
  from constructor_completed [OF assms] obtain this where
    c: "c = select_defaults sendsOnlyKeyframes this" and
    a: "if truthy a
        then \<exists>r c1 c2 c3.
          unwrap (str ''attendee'') (convertMapToObject (toLowerCasePropertyNames lower a)) = Inr r \<and>
          get_property r (str ''attendeeid'') = Inr c1 \<and>
          get_property r (str ''externaluserid'') = Inr c2 \<and>
          get_property r (str ''jointoken'') = Inr c3 \<and>
          credentials this = Some \<lparr>attendeeId = c1, externalUserId = c2, joinToken = c3\<rparr>
        else credentials this = None"
    by blast
  show ?thesis
  proof (cases "truthy a")
    case True
    with a obtain r c1 c2 c3 where
      r: "unwrap (str ''attendee'') (convertMapToObject (toLowerCasePropertyNames lower a)) = Inr r"
         "get_property r (str ''attendeeid'') = Inr c1"
      and cr: "credentials this = Some \<lparr>attendeeId = c1, externalUserId = c2, joinToken = c3\<rparr>"
      by auto
    from cr have "self_attendee_id this = c1" by (simp add: self_attendee_id_def)
    with c r True show ?thesis by (auto simp: select_defaults_fields)
  next
    case False
    with a have "self_attendee_id this = VNull" by (simp add: self_attendee_id_def)
    with c False show ?thesis by (auto simp: select_defaults_fields)
  qed
qed

theorem attendee_id_propagation_witness:
  "MeetingSessionConfiguration_constructor id False JUndefined
      (JObject [(str ''Attendee'', JObject [(str ''AttendeeId'', JString (str ''X''))])]) =
     Inr (select_defaults False (field_initializers
            \<lparr>credentials := Some \<lparr>attendeeId = VString (str ''X''), externalUserId = VUndefined,
                                  joinToken = VUndefined\<rparr>\<rparr>))
   \<and> videoDownlinkBandwidthPolicy (select_defaults False (field_initializers
            \<lparr>credentials := Some \<lparr>attendeeId = VString (str ''X''), externalUserId = VUndefined,
                                  joinToken = VUndefined\<rparr>\<rparr>)) =
       Some (AllHighestVideoBandwidthPolicy (VString (str ''X'')))
   \<and> videoUplinkBandwidthPolicy (select_defaults False (field_initializers
            \<lparr>credentials := Some \<lparr>attendeeId = VString (str ''X''), externalUserId = VUndefined,
                                  joinToken = VUndefined\<rparr>\<rparr>)) =
       Some (NScaleVideoUplinkBandwidthPolicy (VString (str ''X'')))
   \<and> MeetingSessionConfiguration_constructor id False JUndefined JUndefined =
       Inr (select_defaults False field_initializers)
   \<and> videoDownlinkBandwidthPolicy (select_defaults False field_initializers) =
       Some (AllHighestVideoBandwidthPolicy VNull)
   \<and> videoUplinkBandwidthPolicy (select_defaults False field_initializers) =
       Some (NScaleVideoUplinkBandwidthPolicy VNull)"
proof -
  let ?a = "JObject [(str ''Attendee'', JObject [(str ''AttendeeId'', JString (str ''X''))])]"
  let ?c = "select_defaults False (field_initializers
            \<lparr>credentials := Some \<lparr>attendeeId = VString (str ''X''), externalUserId = VUndefined,
                                  joinToken = VUndefined\<rparr>\<rparr>)"
  have h: "MeetingSessionConfiguration_constructor id False JUndefined ?a = Inr ?c"
    by (simp add: constructor_defs Let_def)
  have t: "truthy ?a" by simp
  have u: "unwrap (str ''attendee'') (convertMapToObject (toLowerCasePropertyNames id ?a)) =
             Inr (convertMapToObject [(str ''attendeeid'') \<mapsto> MString (str ''X'')])"
    by (simp add: constructor_defs)
  have g: "get_property (convertMapToObject [(str ''attendeeid'') \<mapsto> MString (str ''X'')]) (str ''attendeeid'') =
             Inr (VString (str ''X''))"
    by (simp add: convertMapToObject_def)
  have h0: "MeetingSessionConfiguration_constructor id False JUndefined JUndefined =
     Inr (select_defaults False field_initializers)"
    by (simp add: constructor_falsy_meeting)
  from attendee_id_propagation [OF h] t u g h attendee_id_propagation [OF h0] h0
  show ?thesis by blast
qed

section \<open>The attendee path\<close>



section \<open>Presence of the URLs and the credentials\<close>

text \<open>
  C8, as stated, fails: a supplied response that holds only some of the fields gives a
  record that is present with only those slots filled. Here the meeting response has
  one URL and the attendee response one credential.
\<close>

theorem partial_population_counterexample:
  "MeetingSessionConfiguration_constructor id False
     (JObject [(str ''MediaPlacement'', JObject [(str ''AudioHostUrl'', JString (str ''a''))])])
     (JObject [(str ''AttendeeId'', JString (str ''x''))]) =
   Inr (field_initializers
     \<lparr>meetingId := VUndefined,
      credentials := Some \<lparr>attendeeId = VString (str ''x''), externalUserId = VUndefined,
                            joinToken = VUndefined\<rparr>,
      urls := Some \<lparr>audioHostURL = VString (str ''a''), screenDataURL = VUndefined,
                     screenSharingURL = VUndefined, screenViewingURL = VUndefined,
                     signalingURL = VUndefined, turnControlURL = VUndefined\<rparr>,
      videoDownlinkBandwidthPolicy := Some (AllHighestVideoBandwidthPolicy (VString (str ''x''))),
      videoUplinkBandwidthPolicy := Some (NScaleVideoUplinkBandwidthPolicy (VString (str ''x'')))\<rparr>)"
  by (simp add: constructor_defs Let_def)

text \<open>The same records, whatever the Unicode conversion is.\<close>

lemma partially_populated_records:
  "MeetingSessionConfiguration_constructor lower False
     (JObject [(str ''MediaPlacement'', JObject [(str ''AudioHostUrl'', JString (str ''a''))])])
     (JObject [(str ''AttendeeId'', JString (str ''x''))]) =
   Inr (field_initializers
     \<lparr>meetingId := VUndefined,
      credentials := Some \<lparr>attendeeId = VString (str ''x''), externalUserId = VUndefined,
                            joinToken = VUndefined\<rparr>,
      urls := Some \<lparr>audioHostURL = VString (str ''a''), screenDataURL = VUndefined,
                     screenSharingURL = VUndefined, screenViewingURL = VUndefined,
                     signalingURL = VUndefined, turnControlURL = VUndefined\<rparr>,
      videoDownlinkBandwidthPolicy := Some (AllHighestVideoBandwidthPolicy (VString (str ''x''))),
      videoUplinkBandwidthPolicy := Some (NScaleVideoUplinkBandwidthPolicy (VString (str ''x'')))\<rparr>)"
  by (simp add: constructor_defs Let_def)

text \<open>
  C8, amended. In every completed construction the URLs record is present exactly
  when the meeting response is supplied (truthy) and the credentials record exactly
  when the attendee response is; every slot of a present record is assigned, each
  from the field of that name in the resolved structure, which reads as \<^verbatim>\<open>undefined\<close>
  when the field is missing.
\<close>

theorem records_present_iff_supplied:
  assumes "MeetingSessionConfiguration_constructor lower sendsOnlyKeyframes m a = Inr c"
  shows "(urls c \<noteq> None \<longleftrightarrow> truthy m) \<and> (credentials c \<noteq> None \<longleftrightarrow> truthy a)
     \<and> (truthy m \<longrightarrow>
          (\<exists>r mp u1 u2 u3 u4 u5 u6.
             unwrap (str ''meeting'') (convertMapToObject (toLowerCasePropertyNames lower m)) = Inr r \<and>
             get_property r (str ''mediaplacement'') = Inr mp \<and>
             get_property mp (str ''audiohosturl'') = Inr u1 \<and>
             get_property mp (str ''screendataurl'') = Inr u2 \<and>
             get_property mp (str ''screensharingurl'') = Inr u3 \<and>
             get_property mp (str ''screenviewingurl'') = Inr u4 \<and>
             get_property mp (str ''signalingurl'') = Inr u5 \<and>
             get_property mp (str ''turncontrolurl'') = Inr u6 \<and>
             urls c = Some \<lparr>audioHostURL = u1, screenDataURL = u2, screenSharingURL = u3,
                             screenViewingURL = u4, signalingURL = u5,
                             turnControlURL = u6\<rparr>))
     \<and> (truthy a \<longrightarrow>
          (\<exists>r c1 c2 c3.
             unwrap (str ''attendee'') (convertMapToObject (toLowerCasePropertyNames lower a)) = Inr r \<and>
             get_property r (str ''attendeeid'') = Inr c1 \<and>
             get_property r (str ''externaluserid'') = Inr c2 \<and>
             get_property r (str ''jointoken'') = Inr c3 \<and>
             credentials c =
               Some \<lparr>attendeeId = c1, externalUserId = c2, joinToken = c3\<rparr>))"
proof -
  from constructor_completed [OF assms] obtain this where
    c: "c = select_defaults sendsOnlyKeyframes this" and
    m: "if truthy m
        then \<exists>r mid mp u1 u2 u3 u4 u5 u6.
          unwrap (str ''meeting'') (convertMapToObject (toLowerCasePropertyNames lower m)) = Inr r \<and>
          get_property r (str ''meetingid'') = Inr mid \<and>
          get_property r (str ''mediaplacement'') = Inr mp \<and> mp \<noteq> VUndefined \<and>
          get_property mp (str ''audiohosturl'') = Inr u1 \<and>
          get_property mp (str ''screendataurl'') = Inr u2 \<and>
          get_property mp (str ''screensharingurl'') = Inr u3 \<and>
          get_property mp (str ''screenviewingurl'') = Inr u4 \<and>
          get_property mp (str ''signalingurl'') = Inr u5 \<and>
          get_property mp (str ''turncontrolurl'') = Inr u6 \<and>
          meetingId this = mid \<and>
          urls this = Some \<lparr>audioHostURL = u1, screenDataURL = u2, screenSharingURL = u3,
                    screenViewingURL = u4, signalingURL = u5, turnControlURL = u6\<rparr>
        else meetingId this = VNull \<and> urls this = None" and
    a: "if truthy a
        then \<exists>r c1 c2 c3.
          unwrap (str ''attendee'') (convertMapToObject (toLowerCasePropertyNames lower a)) = Inr r \<and>
          get_property r (str ''attendeeid'') = Inr c1 \<and>
          get_property r (str ''externaluserid'') = Inr c2 \<and>
          get_property r (str ''jointoken'') = Inr c3 \<and>
          credentials this = Some \<lparr>attendeeId = c1, externalUserId = c2, joinToken = c3\<rparr>
        else credentials this = None"
    by blast
  have u: "urls c = urls this" and cr: "credentials c = credentials this"
    using c by (simp_all add: select_defaults_fields)
  have "urls c \<noteq> None \<longleftrightarrow> truthy m"
    using m u by (cases "truthy m") auto
  moreover have "credentials c \<noteq> None \<longleftrightarrow> truthy a"
    using a cr by (cases "truthy a") auto
  moreover have "truthy m \<longrightarrow>
          (\<exists>r mp u1 u2 u3 u4 u5 u6.
             unwrap (str ''meeting'') (convertMapToObject (toLowerCasePropertyNames lower m)) = Inr r \<and>
             get_property r (str ''mediaplacement'') = Inr mp \<and>
             get_property mp (str ''audiohosturl'') = Inr u1 \<and>
             get_property mp (str ''screendataurl'') = Inr u2 \<and>
             get_property mp (str ''screensharingurl'') = Inr u3 \<and>
             get_property mp (str ''screenviewingurl'') = Inr u4 \<and>
             get_property mp (str ''signalingurl'') = Inr u5 \<and>
             get_property mp (str ''turncontrolurl'') = Inr u6 \<and>
             urls c = Some \<lparr>audioHostURL = u1, screenDataURL = u2, screenSharingURL = u3,
                             screenViewingURL = u4, signalingURL = u5,
                             turnControlURL = u6\<rparr>)"
    using m u by (cases "truthy m") auto
  moreover have "truthy a \<longrightarrow>
          (\<exists>r c1 c2 c3.
             unwrap (str ''attendee'') (convertMapToObject (toLowerCasePropertyNames lower a)) = Inr r \<and>
             get_property r (str ''attendeeid'') = Inr c1 \<and>
             get_property r (str ''externaluserid'') = Inr c2 \<and>
             get_property r (str ''jointoken'') = Inr c3 \<and>
             credentials c =
               Some \<lparr>attendeeId = c1, externalUserId = c2, joinToken = c3\<rparr>)"
    using a cr by (cases "truthy a") auto
  ultimately show ?thesis by blast
qed

theorem records_present_iff_supplied_witness:
  "MeetingSessionConfiguration_constructor id False JUndefined
     (JObject [(str ''Attendee'', JObject [(str ''AttendeeId'', JString (str ''att1'')),
        (str ''ExternalUserId'', JString (str ''ext1'')), (str ''JoinToken'', JString (str ''tok1''))])]) =
   Inr (select_defaults False (field_initializers
     \<lparr>credentials := Some \<lparr>attendeeId = VString (str ''att1''), externalUserId = VString (str ''ext1''),
                            joinToken = VString (str ''tok1'')\<rparr>\<rparr>))
   \<and> urls (select_defaults False (field_initializers
     \<lparr>credentials := Some \<lparr>attendeeId = VString (str ''att1''), externalUserId = VString (str ''ext1''),
                            joinToken = VString (str ''tok1'')\<rparr>\<rparr>)) = None
   \<and> credentials (select_defaults False (field_initializers
     \<lparr>credentials := Some \<lparr>attendeeId = VString (str ''att1''), externalUserId = VString (str ''ext1''),
                            joinToken = VString (str ''tok1'')\<rparr>\<rparr>)) \<noteq> None"
proof -
  let ?a = "JObject [(str ''Attendee'', JObject [(str ''AttendeeId'', JString (str ''att1'')),
        (str ''ExternalUserId'', JString (str ''ext1'')), (str ''JoinToken'', JString (str ''tok1''))])]"
  let ?c = "select_defaults False (field_initializers
     \<lparr>credentials := Some \<lparr>attendeeId = VString (str ''att1''), externalUserId = VString (str ''ext1''),
                            joinToken = VString (str ''tok1'')\<rparr>\<rparr>)"
  have h: "MeetingSessionConfiguration_constructor id False JUndefined ?a = Inr ?c"
    by (simp add: constructor_defs Let_def)
  have "\<not> truthy JUndefined" "truthy ?a" by simp_all
  with records_present_iff_supplied [OF h] h show ?thesis by blast
qed

section \<open>When construction faults\<close>

text \<open>
  C1, as stated, fails: a supplied meeting response without the nested
  \<open>mediaplacement\<close> structure makes the constructor throw a \<^verbatim>\<open>TypeError\<close>, raised by
  the read of \<open>audiohosturl\<close> from \<^verbatim>\<open>undefined\<close>.
\<close>

theorem missing_mediaplacement_counterexample:
  "MeetingSessionConfiguration_constructor id False
     (JObject [(str ''Meeting'', JObject [(str ''MeetingId'', JString (str ''m1''))])]) JUndefined =
   Inl TypeError"
  by (simp add: constructor_defs Let_def)

text \<open>The same fault, whatever the Unicode conversion is.\<close>

lemma missing_mediaplacement_faults:
  "MeetingSessionConfiguration_constructor lower False
     (JObject [(str ''Meeting'', JObject [(str ''MeetingId'', JString (str ''m1''))])]) JUndefined =
   Inl TypeError"
  by (simp add: constructor_defs Let_def)

text \<open>
  C1, amended. Construction throws, and always a \<^verbatim>\<open>TypeError\<close>, exactly when the
  meeting response is supplied (truthy) and its normalized and unwrapped structure has
  no \<open>mediaplacement\<close> entry; for every other pair of inputs it completes.
\<close>

theorem construction_faults_iff:
  "(MeetingSessionConfiguration_constructor lower sendsOnlyKeyframes m a = Inl TypeError) =
     (truthy m \<and>
      (\<exists>r. unwrap (str ''meeting'') (convertMapToObject (toLowerCasePropertyNames lower m)) = Inr r
         \<and> get_property r (str ''mediaplacement'') = Inr VUndefined))
   \<and> (\<exists>c. MeetingSessionConfiguration_constructor lower sendsOnlyKeyframes m a = Inr c) =
     (\<not> (truthy m \<and>
      (\<exists>r. unwrap (str ''meeting'') (convertMapToObject (toLowerCasePropertyNames lower m)) = Inr r
         \<and> get_property r (str ''mediaplacement'') = Inr VUndefined)))"
proof -
  let ?lacks = "truthy m \<and>
      (\<exists>r. unwrap (str ''meeting'') (convertMapToObject (toLowerCasePropertyNames lower m)) = Inr r
         \<and> get_property r (str ''mediaplacement'') = Inr VUndefined)"
  let ?K = "MeetingSessionConfiguration_constructor lower sendsOnlyKeyframes m a"
  have att: "\<exists>c. (if truthy a
          then map_sum id (select_defaults sendsOnlyKeyframes)
                 (read_attendee (convertMapToObject (toLowerCasePropertyNames lower a)) t)
          else Inr (select_defaults sendsOnlyKeyframes t)) = Inr c" for t
    using read_attendee_total [of "toLowerCasePropertyNames lower a" t] by auto
  have fault: "?K = Inl TypeError" if "?lacks"
  proof -
    from that obtain r where t: "truthy m" and
      r: "unwrap (str ''meeting'') (convertMapToObject (toLowerCasePropertyNames lower m)) = Inr r"
         "get_property r (str ''mediaplacement'') = Inr VUndefined" by blast
    from read_meeting_cases [of "toLowerCasePropertyNames lower m" field_initializers] r
    have "read_meeting (convertMapToObject (toLowerCasePropertyNames lower m)) field_initializers =
            Inl TypeError" by auto
    with t show ?thesis by (simp add: constructor_truthy_meeting bind_result_def)
  qed
  have completes: "\<exists>c. ?K = Inr c" if "\<not> ?lacks"
  proof (cases "truthy m")
    case False
    with att [of field_initializers] show ?thesis by (simp add: constructor_falsy_meeting)
  next
    case True
    from read_meeting_cases [of "toLowerCasePropertyNames lower m" field_initializers] True that
    obtain t where
      "read_meeting (convertMapToObject (toLowerCasePropertyNames lower m)) field_initializers = Inr t"
      by (auto split: if_splits)
    with True att [of t] show ?thesis
      by (simp add: constructor_truthy_meeting bind_result_def)
  qed
  from fault completes show ?thesis by (cases "?lacks") auto
qed

theorem construction_faults_iff_witness:
  "MeetingSessionConfiguration_constructor id False (JObject [(str ''MeetingId'', JString (str ''m1''))])
     JUndefined = Inl TypeError
   \<and> (\<exists>c. MeetingSessionConfiguration_constructor id False
            (JObject [(str ''MediaPlacement'', JObject [])]) JUndefined = Inr c)"
proof -
  have lacks: "truthy (JObject [(str ''MeetingId'', JString (str ''m1''))]) \<and>
      (\<exists>r. unwrap (str ''meeting'') (convertMapToObject
              (toLowerCasePropertyNames id (JObject [(str ''MeetingId'', JString (str ''m1''))]))) = Inr r
         \<and> get_property r (str ''mediaplacement'') = Inr VUndefined)"
    by (simp add: constructor_defs)
  have has: "\<not> (truthy (JObject [(str ''MediaPlacement'', JObject [])]) \<and>
      (\<exists>r. unwrap (str ''meeting'') (convertMapToObject
              (toLowerCasePropertyNames id (JObject [(str ''MediaPlacement'', JObject [])]))) = Inr r
         \<and> get_property r (str ''mediaplacement'') = Inr VUndefined))"
    by (simp add: constructor_defs)
  from construction_faults_iff [of id False "JObject [(str ''MeetingId'', JString (str ''m1''))]" JUndefined]
       lacks
       construction_faults_iff [of id False "JObject [(str ''MediaPlacement'', JObject [])]" JUndefined]
       has
  show ?thesis by blast
qed

section \<open>Normalization\<close>

lemma toLowerCasePropertyNames_fold:
  "toLowerCasePropertyNames lower jsonObject = fold (store_entry lower) (for_in jsonObject) Map.empty"
proof -
  have "(\<lambda>(key, v) output.
             if objectToString v = ''[object Object]''
             then output(toLowerCase lower key \<mapsto> MMap (toLowerCasePropertyNames lower v))
             else if objectToString v = ''[object String]''
             then output(toLowerCase lower key \<mapsto> MString (case v of JString s \<Rightarrow> s))
             else output) = store_entry lower"
    by (auto simp: fun_eq_iff store_entry_def stored_value_def)
  then show ?thesis
    by (subst toLowerCasePropertyNames.simps) simp
qed

lemma stored_value_simps:
  "stored_value lower (JString s) = Some (MString s)"
  "stored_value lower (JObject es) = Some (MMap (toLowerCasePropertyNames lower (JObject es)))"
  "stored_value lower JUndefined = None"
  "stored_value lower JNull = None"
  "stored_value lower (JBoolean b) = None"
  "stored_value lower (JNumber n) = None"
  "stored_value lower (JArray vs) = None"
  by (simp_all add: stored_value_def)

lemma stored_value_Some_iff:
  "stored_value lower v \<noteq> None \<longleftrightarrow> (\<exists>s. v = JString s) \<or> (\<exists>es. v = JObject es)"
  by (cases v) (simp_all add: stored_value_simps)

lemma fold_store_dom:
  "dom (fold (store_entry lower) kvs M) =
     dom M \<union> {toLowerCase lower k | k v. (k, v) \<in> set kvs \<and> stored_value lower v \<noteq> None}"
proof (induction kvs arbitrary: M)
  case Nil
  show ?case by simp
next
  case (Cons e kvs)
  let ?S = "\<lambda>l. {toLowerCase lower k | k v. (k, v) \<in> set l \<and> stored_value lower v \<noteq> None}"
  obtain k v where e: "e = (k, v)" by (cases e)
  have step: "dom (fold (store_entry lower) (e # kvs) M) = dom (store_entry lower e M) \<union> ?S kvs"
    using Cons.IH [of "store_entry lower e M"] by simp
  show ?case
  proof (cases "stored_value lower v")
    case None
    with e have "store_entry lower e M = M" by (simp add: store_entry_def)
    moreover from e None have "?S (e # kvs) = ?S kvs" by auto
    ultimately show ?thesis using step by simp
  next
    case (Some w)
    with e have "dom (store_entry lower e M) = insert (toLowerCase lower k) (dom M)"
      by (simp add: store_entry_def)
    moreover from e Some have "?S (e # kvs) = insert (toLowerCase lower k) (?S kvs)" by auto
    ultimately show ?thesis using step by simp
  qed
qed

lemma fold_store_lookup:
  "fold (store_entry lower) kvs M k' = Some w \<Longrightarrow>
   M k' = Some w \<or> (\<exists>k v. (k, v) \<in> set kvs \<and> toLowerCase lower k = k' \<and> stored_value lower v = Some w)"
proof (induction kvs arbitrary: M)
  case Nil
  then show ?case by simp
next
  case (Cons e kvs)
  obtain k v where e: "e = (k, v)" by (cases e)
  from Cons.prems have "fold (store_entry lower) kvs (store_entry lower e M) k' = Some w" by simp
  from Cons.IH [OF this] show ?case
  proof
    assume "store_entry lower e M k' = Some w"
    with e show ?thesis
      by (auto simp: store_entry_def split: option.splits if_splits)
  next
    assume "\<exists>k v. (k, v) \<in> set kvs \<and> toLowerCase lower k = k' \<and> stored_value lower v = Some w"
    then show ?thesis by auto
  qed
qed

lemma fold_store_unique:
  assumes "(k, v) \<in> set kvs"
    and "\<forall>(k', v') \<in> set kvs. toLowerCase lower k' = toLowerCase lower k \<longrightarrow> v' = v"
    and "stored_value lower v = Some w"
  shows "fold (store_entry lower) kvs M (toLowerCase lower k) = Some w"
  using assms(1,2)
proof (induction kvs arbitrary: M)
  case Nil
  then show ?case by simp
next
  case (Cons e kvs)
  obtain k' v' where e: "e = (k', v')" by (cases e)
  show ?case
  proof (cases "(k, v) \<in> set kvs")
    case True
    with Cons.IH [of "store_entry lower e M"] Cons.prems(2) show ?thesis by simp
  next
    case False
    with Cons.prems(1) have ekv: "e = (k, v)" by simp
    have other: "\<And>w'. fold (store_entry lower) kvs (store_entry lower e M) (toLowerCase lower k) = Some w'
        \<Longrightarrow> w' = w"
    proof -
      fix w' assume "fold (store_entry lower) kvs (store_entry lower e M) (toLowerCase lower k) = Some w'"
      from fold_store_lookup [OF this] show "w' = w"
      proof
        assume "store_entry lower e M (toLowerCase lower k) = Some w'"
        with ekv assms(3) show ?thesis by (simp add: store_entry_def)
      next
        assume "\<exists>k'' v''. (k'', v'') \<in> set kvs \<and> toLowerCase lower k'' = toLowerCase lower k
                  \<and> stored_value lower v'' = Some w'"
        then obtain k'' v'' where "(k'', v'') \<in> set kvs" "toLowerCase lower k'' = toLowerCase lower k"
          "stored_value lower v'' = Some w'" by blast
        with Cons.prems(2) assms(3) show ?thesis by fastforce
      qed
    qed
    have "toLowerCase lower k \<in> dom (fold (store_entry lower) kvs (store_entry lower e M))"
      using ekv assms(3) by (simp add: fold_store_dom store_entry_def)
    then obtain w' where "fold (store_entry lower) kvs (store_entry lower e M) (toLowerCase lower k) = Some w'"
      by blast
    with other [OF this] show ?thesis by simp
  qed
qed

lemma store_entry_dropped:
  "stored_value lower (snd e) = None \<Longrightarrow> store_entry lower e M = M"
  by (simp add: store_entry_def)

lemma kept_stored_value: "stored_value lower v = None \<longleftrightarrow> \<not> kept v"
  by (cases v) (simp_all add: stored_value_simps)

lemma store_entry_commute:
  assumes "toLowerCase lower (fst e) \<noteq> toLowerCase lower (fst e') \<or> \<not> kept (snd e) \<or>
           \<not> kept (snd e') \<or> stored_value lower (snd e) = stored_value lower (snd e')"
  shows "store_entry lower e (store_entry lower e' M) =
         store_entry lower e' (store_entry lower e M)"
proof (cases "kept (snd e) \<and> kept (snd e')")
  case False
  then have "stored_value lower (snd e) = None \<or> stored_value lower (snd e') = None"
    by (simp add: kept_stored_value)
  then show ?thesis by (auto simp: store_entry_dropped)
next
  case True
  show ?thesis
  proof (cases "toLowerCase lower (fst e) = toLowerCase lower (fst e')")
    case False
    then show ?thesis
      by (auto simp: store_entry_def fun_upd_twist split: option.splits)
  next
    case same: True
    with True assms have "stored_value lower (snd e) = stored_value lower (snd e')" by blast
    with same have "store_entry lower e = store_entry lower e'"
      by (auto simp: store_entry_def fun_eq_iff split: option.splits)
    then show ?thesis by simp
  qed
qed

lemma pruning_preserves_normalization:
  "toLowerCasePropertyNames lower (prune v) = toLowerCasePropertyNames lower v"
proof (induction v rule: prune.induct)
  case (1 kvs)
  have st: "stored_value lower (prune v) = stored_value lower v" if "(key, v) \<in> set kvs" "kept v" for key v
  proof (cases v)
    case (JObject es)
    from "1.IH" [of "(key, v)" key v] that
    have "toLowerCasePropertyNames lower (prune v) = toLowerCasePropertyNames lower v" by simp
    with JObject show ?thesis by (simp add: stored_value_def)
  qed simp_all
  have "fold (store_entry lower) (map (\<lambda>(key, v). (key, prune v)) (filter (\<lambda>(key, v). kept v) l)) M =
        fold (store_entry lower) l M" if "set l \<subseteq> set kvs" for l M
    using that
  proof (induction l arbitrary: M)
    case Nil
    show ?case by simp
  next
    case (Cons e l)
    obtain key v where e: "e = (key, v)" by (cases e)
    show ?case
    proof (cases "kept v")
      case True
      from Cons.prems e have "(key, v) \<in> set kvs" by simp
      from st [OF this True] have "store_entry lower (key, prune v) M = store_entry lower (key, v) M"
        by (simp add: store_entry_def split: option.splits)
      with Cons e True show ?thesis by simp
    next
      case False
      then have "store_entry lower (key, v) M = M"
        by (simp add: store_entry_dropped kept_stored_value)
      with Cons e False show ?thesis by simp
    qed
  qed
  from this [of kvs] show ?case
    by (simp add: toLowerCasePropertyNames_fold)
qed simp_all

text \<open>
  Among the properties whose keys have the same lower-casing, the last one with a
  kept value decides.
\<close>

lemma fold_store_last:
  "fold (store_entry lower) kvs M k' =
     (case last_stored lower kvs k' of None \<Rightarrow> M k' | Some w \<Rightarrow> Some w)"
proof (induction kvs rule: rev_induct)
  case Nil
  show ?case by (simp add: last_stored_def)
next
  case (snoc e kvs)
  show ?case
  proof (cases "toLowerCase lower (fst e) = k' \<and> kept (snd e)")
    case True
    then obtain w where w: "stored_value lower (snd e) = Some w"
      using kept_stored_value [of lower "snd e"] by auto
    with True show ?thesis by (simp add: last_stored_def store_entry_def)
  next
    case False
    then have "store_entry lower e (fold (store_entry lower) kvs M) k' =
               fold (store_entry lower) kvs M k'"
      using kept_stored_value [of lower "snd e"]
      by (auto simp: store_entry_def split: option.splits)
    moreover from False have "last_stored lower (kvs @ [e]) k' = last_stored lower kvs k'"
      by (auto simp: last_stored_def)
    ultimately show ?thesis using snoc.IH by simp
  qed
qed

lemma last_property_wins:
  "toLowerCasePropertyNames lower (JObject kvs) k' = last_stored lower kvs k'"
  by (simp add: toLowerCasePropertyNames_fold fold_store_last split: option.splits)

text \<open>
  A key with a code unit outside ASCII is lower-cased by the Unicode tables: when they
  turn the Kelvin sign into \<open>k\<close>, the key \<open>JoinTo\<close>, U+212A, \<open>en\<close> is stored as
  \<open>jointoken\<close> and, coming later, overwrites the value of the key \<open>JoinToken\<close>.
\<close>

lemma kelvin_sign_key:
  assumes "lower (str ''JoinTo'' @ [0x212A] @ str ''en'') = str ''jointoken''"
  shows "toLowerCasePropertyNames lower
           (JObject [(str ''JoinToken'', JString (str ''t1'')),
                     (str ''JoinTo'' @ [0x212A] @ str ''en'', JString (str ''t2''))])
           (str ''jointoken'') = Some (MString (str ''t2''))"
proof -
  have "toLowerCase lower (str ''JoinTo'' @ [0x212A] @ str ''en'') = str ''jointoken''"
    using assms by (simp add: toLowerCase_def str_def)
  moreover have "toLowerCase lower (str ''JoinToken'') = str ''jointoken''"
    by (simp add: toLowerCase_def toLowerCase_ascii_def str_def)
  ultimately show ?thesis
    by (simp add: toLowerCasePropertyNames_fold store_entry_def stored_value_simps)
qed

text \<open>
  C6. Normalization of a raw key-value structure: the keys of the result are exactly
  the lower-cased keys of the properties whose value is a string or a nested
  structure; every value of the result is the string of such a property as it is, or
  the normalization of its nested structure; a string or structure whose lower-cased
  key no other property contends for is found under that key; and a property whose
  value is of any other type (number, boolean, array, null, undefined) can be removed
  from the input without changing the result, and so can all such properties at
  once, at every nesting depth (\<open>prune\<close>).
\<close>

theorem normalization_keeps_strings_and_structures:
  "dom (toLowerCasePropertyNames lower (JObject kvs)) =
     {toLowerCase lower k | k v. (k, v) \<in> set kvs \<and> ((\<exists>s. v = JString s) \<or> (\<exists>es. v = JObject es))}
   \<and> (\<forall>k' w. toLowerCasePropertyNames lower (JObject kvs) k' = Some w \<longrightarrow>
        (\<exists>k v. (k, v) \<in> set kvs \<and> toLowerCase lower k = k' \<and>
           ((\<exists>s. v = JString s \<and> w = MString s) \<or>
            (\<exists>es. v = JObject es \<and> w = MMap (toLowerCasePropertyNames lower (JObject es))))))
   \<and> (\<forall>k s. (k, JString s) \<in> set kvs \<and>
          (\<forall>(k', v') \<in> set kvs. toLowerCase lower k' = toLowerCase lower k \<longrightarrow> v' = JString s) \<longrightarrow>
        toLowerCasePropertyNames lower (JObject kvs) (toLowerCase lower k) = Some (MString s))
   \<and> (\<forall>k es. (k, JObject es) \<in> set kvs \<and>
          (\<forall>(k', v') \<in> set kvs. toLowerCase lower k' = toLowerCase lower k \<longrightarrow> v' = JObject es) \<longrightarrow>
        toLowerCasePropertyNames lower (JObject kvs) (toLowerCase lower k) =
          Some (MMap (toLowerCasePropertyNames lower (JObject es))))
   \<and> (\<forall>xs k v ys. kvs = xs @ (k, v) # ys \<and> (\<forall>s. v \<noteq> JString s) \<and> (\<forall>es. v \<noteq> JObject es) \<longrightarrow>
        toLowerCasePropertyNames lower (JObject kvs) = toLowerCasePropertyNames lower (JObject (xs @ ys)))
   \<and> toLowerCasePropertyNames lower (prune (JObject kvs)) = toLowerCasePropertyNames lower (JObject kvs)"
proof (intro conjI allI impI)
  show "toLowerCasePropertyNames lower (prune (JObject kvs)) = toLowerCasePropertyNames lower (JObject kvs)"
    by (rule pruning_preserves_normalization)
next
  show "dom (toLowerCasePropertyNames lower (JObject kvs)) =
     {toLowerCase lower k | k v. (k, v) \<in> set kvs \<and> ((\<exists>s. v = JString s) \<or> (\<exists>es. v = JObject es))}"
    unfolding toLowerCasePropertyNames_fold for_in.simps fold_store_dom stored_value_Some_iff
    by simp
next
  fix k' w
  assume "toLowerCasePropertyNames lower (JObject kvs) k' = Some w"
  then have "fold (store_entry lower) kvs Map.empty k' = Some w"
    by (simp add: toLowerCasePropertyNames_fold)
  from fold_store_lookup [OF this] obtain k v where
    kv: "(k, v) \<in> set kvs" "toLowerCase lower k = k'" "stored_value lower v = Some w" by auto
  from kv(3) have "(\<exists>s. v = JString s \<and> w = MString s) \<or>
            (\<exists>es. v = JObject es \<and> w = MMap (toLowerCasePropertyNames lower (JObject es)))"
    by (cases v) (auto simp: stored_value_simps)
  with kv(1,2) show "\<exists>k v. (k, v) \<in> set kvs \<and> toLowerCase lower k = k' \<and>
           ((\<exists>s. v = JString s \<and> w = MString s) \<or>
            (\<exists>es. v = JObject es \<and> w = MMap (toLowerCasePropertyNames lower (JObject es))))"
    by blast
next
  fix k s
  assume "(k, JString s) \<in> set kvs \<and>
          (\<forall>(k', v') \<in> set kvs. toLowerCase lower k' = toLowerCase lower k \<longrightarrow> v' = JString s)"
  then have "fold (store_entry lower) kvs Map.empty (toLowerCase lower k) = Some (MString s)"
    by (intro fold_store_unique [where v = "JString s"]) (simp_all add: stored_value_simps)
  then show "toLowerCasePropertyNames lower (JObject kvs) (toLowerCase lower k) = Some (MString s)"
    by (simp add: toLowerCasePropertyNames_fold)
next
  fix k es
  assume "(k, JObject es) \<in> set kvs \<and>
          (\<forall>(k', v') \<in> set kvs. toLowerCase lower k' = toLowerCase lower k \<longrightarrow> v' = JObject es)"
  then have "fold (store_entry lower) kvs Map.empty (toLowerCase lower k) =
          Some (MMap (toLowerCasePropertyNames lower (JObject es)))"
    by (intro fold_store_unique [where v = "JObject es"]) (simp_all add: stored_value_simps)
  then show "toLowerCasePropertyNames lower (JObject kvs) (toLowerCase lower k) =
          Some (MMap (toLowerCasePropertyNames lower (JObject es)))"
    by (simp add: toLowerCasePropertyNames_fold)
next
  fix xs k v ys
  assume a: "kvs = xs @ (k, v) # ys \<and> (\<forall>s. v \<noteq> JString s) \<and> (\<forall>es. v \<noteq> JObject es)"
  then have "stored_value lower v = None"
    using stored_value_Some_iff [of lower v] by blast
  with a show "toLowerCasePropertyNames lower (JObject kvs) =
      toLowerCasePropertyNames lower (JObject (xs @ ys))"
    by (simp add: toLowerCasePropertyNames_fold store_entry_dropped)
qed

theorem normalization_keeps_strings_and_structures_witness:
  "toLowerCasePropertyNames id
     (JObject [(str ''A'', JString (str ''x'')), (str ''B'', JNumber 3),
               (str ''C'', JObject [(str ''D'', JString (str ''y''))])]) (str ''a'') = Some (MString (str ''x''))
   \<and> toLowerCasePropertyNames id
     (JObject [(str ''A'', JString (str ''x'')), (str ''B'', JNumber 3),
               (str ''C'', JObject [(str ''D'', JString (str ''y''))])]) (str ''c'') =
       Some (MMap (toLowerCasePropertyNames id (JObject [(str ''D'', JString (str ''y''))])))
   \<and> toLowerCasePropertyNames id
     (JObject [(str ''A'', JString (str ''x'')), (str ''B'', JNumber 3),
               (str ''C'', JObject [(str ''D'', JString (str ''y''))])]) =
     toLowerCasePropertyNames id
     (JObject [(str ''A'', JString (str ''x'')), (str ''C'', JObject [(str ''D'', JString (str ''y''))])])
   \<and> prune (JObject [(str ''A'', JString (str ''x'')), (str ''B'', JNumber 3),
               (str ''C'', JObject [(str ''D'', JString (str ''y'')), (str ''E'', JNull)])]) =
     JObject [(str ''A'', JString (str ''x'')), (str ''C'', JObject [(str ''D'', JString (str ''y''))])]"
proof -
  let ?kvs = "[(str ''A'', JString (str ''x'')), (str ''B'', JNumber 3),
               (str ''C'', JObject [(str ''D'', JString (str ''y''))])]"
  note t = normalization_keeps_strings_and_structures [of id ?kvs]
  have lc: "toLowerCase id (str ''A'') = str ''a''" "toLowerCase id (str ''B'') = str ''b''" "toLowerCase id (str ''C'') = str ''c''"
    by (simp_all add: toLowerCase_def toLowerCase_ascii_def str_def)
  have a: "(str ''A'', JString (str ''x'')) \<in> set ?kvs \<and>
          (\<forall>(k', v') \<in> set ?kvs. toLowerCase id k' = toLowerCase id (str ''A'') \<longrightarrow> v' = JString (str ''x''))"
    by (simp add: lc)
  have c: "(str ''C'', JObject [(str ''D'', JString (str ''y''))]) \<in> set ?kvs \<and>
          (\<forall>(k', v') \<in> set ?kvs. toLowerCase id k' = toLowerCase id (str ''C'') \<longrightarrow>
              v' = JObject [(str ''D'', JString (str ''y''))])"
    by (simp add: lc)
  have b: "?kvs = [(str ''A'', JString (str ''x''))] @ (str ''B'', JNumber 3) #
                  [(str ''C'', JObject [(str ''D'', JString (str ''y''))])]
           \<and> (\<forall>s. JNumber 3 \<noteq> JString s) \<and> (\<forall>es. JNumber 3 \<noteq> JObject es)"
    by simp
  from t a have "toLowerCasePropertyNames id (JObject ?kvs) (toLowerCase id (str ''A'')) = Some (MString (str ''x''))"
    by blast
  moreover from t c have "toLowerCasePropertyNames id (JObject ?kvs) (toLowerCase id (str ''C'')) =
       Some (MMap (toLowerCasePropertyNames id (JObject [(str ''D'', JString (str ''y''))])))"
    by blast
  moreover from t b have "toLowerCasePropertyNames id (JObject ?kvs) =
      toLowerCasePropertyNames id (JObject ([(str ''A'', JString (str ''x''))] @
                  [(str ''C'', JObject [(str ''D'', JString (str ''y''))])]))"
    by blast
  ultimately show ?thesis by (simp add: lc)
qed

section \<open>Wrapped and flat shapes\<close>

lemma unwrap_present:
  "M root = Some (MMap T) \<Longrightarrow> root \<noteq> (str ''__proto__'') \<Longrightarrow>
   unwrap root (convertMapToObject M) = Inr (convertMapToObject T)"
  by (simp add: unwrap_def bind_result_def convertMapToObject_def)

lemma unwrap_missing:
  "M root = None \<Longrightarrow> unwrap root (convertMapToObject M) = Inr (convertMapToObject M)"
  by (simp add: unwrap_def bind_result_def convertMapToObject_def)

lemma read_meeting_unwrap:
  "unwrap (str ''meeting'') N = unwrap (str ''meeting'') N' \<Longrightarrow> read_meeting N this = read_meeting N' this"
  by (simp add: read_meeting_def)

lemma read_attendee_unwrap:
  "unwrap (str ''attendee'') N = unwrap (str ''attendee'') N' \<Longrightarrow>
   read_attendee N this = read_attendee N' this"
  by (simp add: read_attendee_def)

lemma wrapped_unwraps_to_flat:
  assumes "toLowerCase lower key = root" and "root \<noteq> (str ''__proto__'')"
    and "\<forall>k \<in> fst ` set flat. toLowerCase lower k \<noteq> root"
  shows "unwrap root (convertMapToObject (toLowerCasePropertyNames lower
             (JObject [(key, JObject flat)]))) =
         unwrap root (convertMapToObject (toLowerCasePropertyNames lower (JObject flat)))"
proof -
  let ?T = "toLowerCasePropertyNames lower (JObject flat)"
  have present: "toLowerCasePropertyNames lower (JObject [(key, JObject flat)]) root = Some (MMap ?T)"
    using assms(1)
    by (simp add: toLowerCasePropertyNames_fold [of lower "JObject [(key, JObject flat)]"]
          store_entry_def stored_value_simps)
  have w: "unwrap root (convertMapToObject (toLowerCasePropertyNames lower
             (JObject [(key, JObject flat)]))) = Inr (convertMapToObject ?T)"
    using present assms(2) by (rule unwrap_present)
  have "root \<notin> dom ?T"
    using assms(3) unfolding toLowerCasePropertyNames_fold for_in.simps fold_store_dom
    by force
  then have "?T root = None" by blast
  then have "unwrap root (convertMapToObject ?T) = Inr (convertMapToObject ?T)"
    by (rule unwrap_missing)
  with w show ?thesis by simp
qed

text \<open>
  C2. For every set of meeting fields and attendee fields (none of them itself keyed
  \<open>meeting\<close> or \<open>attendee\<close> in any letter case), building from the wrapped shape, with
  the fields nested under a key that lower-cases to \<open>meeting\<close> and \<open>attendee\<close>, and
  building from the flat shape with the same fields give the same result: the same
  meeting identifier, URLs and credentials, or the same fault. This holds for the
  two responses together and for each of them with any other response beside it.
\<close>

theorem wrapped_and_flat_shapes_agree:
  assumes "toLowerCase lower meetingKey = str ''meeting''"
    and "toLowerCase lower attendeeKey = str ''attendee''"
    and "\<forall>k \<in> fst ` set meetingFields. toLowerCase lower k \<noteq> (str ''meeting'')"
    and "\<forall>k \<in> fst ` set attendeeFields. toLowerCase lower k \<noteq> (str ''attendee'')"
  shows "MeetingSessionConfiguration_constructor lower sendsOnlyKeyframes
           (JObject [(meetingKey, JObject meetingFields)])
           (JObject [(attendeeKey, JObject attendeeFields)]) =
         MeetingSessionConfiguration_constructor lower sendsOnlyKeyframes
           (JObject meetingFields) (JObject attendeeFields)
     \<and> MeetingSessionConfiguration_constructor lower sendsOnlyKeyframes
           (JObject [(meetingKey, JObject meetingFields)]) a =
         MeetingSessionConfiguration_constructor lower sendsOnlyKeyframes (JObject meetingFields) a
     \<and> MeetingSessionConfiguration_constructor lower sendsOnlyKeyframes m
           (JObject [(attendeeKey, JObject attendeeFields)]) =
         MeetingSessionConfiguration_constructor lower sendsOnlyKeyframes m (JObject attendeeFields)"
proof -
  have m: "read_meeting (convertMapToObject (toLowerCasePropertyNames lower
              (JObject [(meetingKey, JObject meetingFields)]))) this =
           read_meeting (convertMapToObject (toLowerCasePropertyNames lower
              (JObject meetingFields))) this" for this
    using assms(1,3) by (intro read_meeting_unwrap wrapped_unwraps_to_flat) simp_all
  have a: "read_attendee (convertMapToObject (toLowerCasePropertyNames lower
              (JObject [(attendeeKey, JObject attendeeFields)]))) this =
           read_attendee (convertMapToObject (toLowerCasePropertyNames lower
              (JObject attendeeFields))) this" for this
    using assms(2,4) by (intro read_attendee_unwrap wrapped_unwraps_to_flat) simp_all
  show ?thesis
    by (simp add: MeetingSessionConfiguration_constructor_def m a)
qed

theorem wrapped_and_flat_shapes_agree_witness:
  "MeetingSessionConfiguration_constructor id False
     (JObject [(str ''Meeting'', JObject
        [(str ''MeetingId'', JString (str ''m1'')),
         (str ''MediaPlacement'', JObject [(str ''AudioHostUrl'', JString (str ''a''))])])])
     (JObject [(str ''Attendee'', JObject [(str ''AttendeeId'', JString (str ''att1''))])]) =
   MeetingSessionConfiguration_constructor id False
     (JObject [(str ''MeetingId'', JString (str ''m1'')),
               (str ''MediaPlacement'', JObject [(str ''AudioHostUrl'', JString (str ''a''))])])
     (JObject [(str ''AttendeeId'', JString (str ''att1''))])"
proof -
  have lc: "toLowerCase id (str ''Meeting'') = str ''meeting''" "toLowerCase id (str ''Attendee'') = str ''attendee''"
    by (simp_all add: toLowerCase_def toLowerCase_ascii_def str_def)
  have m: "\<forall>k \<in> fst ` set [(str ''MeetingId'', JString (str ''m1'')),
         (str ''MediaPlacement'', JObject [(str ''AudioHostUrl'', JString (str ''a''))])].
           toLowerCase id k \<noteq> (str ''meeting'')"
    by (simp add: toLowerCase_def toLowerCase_ascii_def str_def)
  have a: "\<forall>k \<in> fst ` set [(str ''AttendeeId'', JString (str ''att1''))]. toLowerCase id k \<noteq> (str ''attendee'')"
    by (simp add: toLowerCase_def toLowerCase_ascii_def str_def)
  from wrapped_and_flat_shapes_agree [OF lc m a] show ?thesis by blast
qed

section \<open>Order of keys\<close>

lemma reordered_shape:
  "reordered lower v w \<Longrightarrow> v = w \<or> (\<exists>xs ys. v = JObject xs \<and> w = JObject ys)"
  by (induction rule: reordered.induct) auto

lemma reordered_stored_value:
  assumes "reordered lower v w" and "toLowerCasePropertyNames lower v = toLowerCasePropertyNames lower w"
  shows "stored_value lower v = stored_value lower w"
proof -
  from reordered_shape [OF assms(1)] show ?thesis
  proof
    assume "v = w" then show ?thesis by simp
  next
    assume "\<exists>xs ys. v = JObject xs \<and> w = JObject ys"
    with assms(2) show ?thesis by (auto simp: stored_value_def)
  qed
qed

lemma reordered_normalization:
  "reordered lower v w \<Longrightarrow> toLowerCasePropertyNames lower v = toLowerCasePropertyNames lower w"
proof (induction rule: reordered.induct)
  case (same v)
  show ?case by simp
next
  case (swap e e' xs ys)
  from store_entry_commute [OF swap.hyps] show ?case
    by (simp add: toLowerCasePropertyNames_fold)
next
  case (inside v w xs key ys)
  from reordered_stored_value [OF inside.hyps inside.IH]
  have "store_entry lower (key, v) = store_entry lower (key, w)"
    by (auto simp: store_entry_def fun_eq_iff split: option.splits)
  then show ?case by (simp add: toLowerCasePropertyNames_fold)
next
  case (step u v w)
  then show ?case by simp
qed

lemma reordered_truthy: "reordered lower v w \<Longrightarrow> truthy v = truthy w"
  by (drule reordered_shape) auto

lemma reordered_Cons:
  assumes "reordered lower (JObject xs) (JObject ys)"
  shows "reordered lower (JObject (e # xs)) (JObject (e # ys))"
proof -
  have "reordered lower u w \<Longrightarrow>
        \<forall>xs ys. u = JObject xs \<longrightarrow> w = JObject ys \<longrightarrow>
          reordered lower (JObject (e # xs)) (JObject (e # ys))" for u w
  proof (induction rule: reordered.induct)
    case (same v)
    show ?case by (auto intro: reordered.same)
  next
    case (swap a b xs ys)
    from reordered.swap [OF swap.hyps, of "e # xs" ys] show ?case by simp
  next
    case (inside v w xs key ys)
    from reordered.inside [OF inside.hyps, of "e # xs" key ys] show ?case by simp
  next
    case (step u v w)
    show ?case
    proof (intro allI impI)
      fix xs ys assume u: "u = JObject xs" and w: "w = JObject ys"
      from reordered_shape [OF step.hyps(1)] u obtain zs where v: "v = JObject zs" by auto
      from step.IH(1) u v have "reordered lower (JObject (e # xs)) (JObject (e # zs))" by blast
      moreover from step.IH(2) v w have "reordered lower (JObject (e # zs)) (JObject (e # ys))"
        by blast
      ultimately show "reordered lower (JObject (e # xs)) (JObject (e # ys))"
        by (rule reordered.step)
    qed
  qed
  with assms show ?thesis by blast
qed

lemma reordered_move:
  "\<forall>y \<in> set mid. toLowerCase lower (fst x) \<noteq> toLowerCase lower (fst y) \<or> \<not> kept (snd x) \<or>
       \<not> kept (snd y) \<or> stored_value lower (snd x) = stored_value lower (snd y) \<Longrightarrow>
   reordered lower (JObject (pre @ x # mid @ post)) (JObject (pre @ mid @ x # post))"
proof (induction mid arbitrary: pre)
  case Nil
  show ?case by (simp add: reordered.same)
next
  case (Cons y mid)
  from Cons.prems
  have ne: "toLowerCase lower (fst x) \<noteq> toLowerCase lower (fst y) \<or> \<not> kept (snd x) \<or>
       \<not> kept (snd y) \<or> stored_value lower (snd x) = stored_value lower (snd y)" by simp
  from reordered.swap [OF ne, of pre "mid @ post"]
  have "reordered lower (JObject (pre @ x # (y # mid) @ post))
                  (JObject ((pre @ [y]) @ x # mid @ post))" by simp
  moreover from Cons.IH [of "pre @ [y]"] Cons.prems
  have "reordered lower (JObject ((pre @ [y]) @ x # mid @ post))
                  (JObject (pre @ (y # mid) @ x # post))" by simp
  ultimately show ?case by (rule reordered.step)
qed

text \<open>
  When no two properties of an object that hold a string or a nested structure have
  the same lower-cased key, every permutation of its properties is a reordering.
\<close>

lemma permutation_reordered:
  "distinct (map (\<lambda>e. toLowerCase lower (fst e)) (filter (\<lambda>e. kept (snd e)) xs)) \<Longrightarrow>
   mset xs = mset ys \<Longrightarrow> reordered lower (JObject xs) (JObject ys)"
proof (induction xs arbitrary: ys)
  case Nil
  then show ?case by (simp add: reordered.same)
next
  case (Cons x xs)
  from Cons.prems(2) have "x \<in> set ys" by (metis list.set_intros(1) mset_eq_setD)
  then obtain ys1 ys2 where ys: "ys = ys1 @ x # ys2" by (auto dest: split_list)
  with Cons.prems(2) have ms: "mset xs = mset (ys1 @ ys2)" by simp
  from Cons.prems(1)
  have "distinct (map (\<lambda>e. toLowerCase lower (fst e)) (filter (\<lambda>e. kept (snd e)) xs))"
    by (simp split: if_splits)
  from Cons.IH [OF this ms]
  have "reordered lower (JObject (x # xs)) (JObject (x # ys1 @ ys2))"
    by (rule reordered_Cons)
  moreover have "\<forall>y \<in> set ys1. toLowerCase lower (fst x) \<noteq> toLowerCase lower (fst y) \<or>
      \<not> kept (snd x) \<or> \<not> kept (snd y) \<or>
      stored_value lower (snd x) = stored_value lower (snd y)"
  proof
    fix y assume "y \<in> set ys1"
    then have y: "y \<in> set xs" using ms by (metis Un_iff mset_eq_setD set_append)
    show "toLowerCase lower (fst x) \<noteq> toLowerCase lower (fst y) \<or>
      \<not> kept (snd x) \<or> \<not> kept (snd y) \<or>
      stored_value lower (snd x) = stored_value lower (snd y)"
    proof (cases "kept (snd x) \<and> kept (snd y)")
      case True
      with y have "y \<in> set (filter (\<lambda>e. kept (snd e)) xs)" by simp
      with Cons.prems(1) True
      have "toLowerCase lower (fst x) \<noteq> toLowerCase lower (fst y)" by auto
      then show ?thesis by simp
    next
      case False
      then show ?thesis by blast
    qed
  qed
  from reordered_move [OF this, of "[]" ys2]
  have "reordered lower (JObject (x # ys1 @ ys2)) (JObject (ys1 @ x # ys2))" by simp
  ultimately show ?case unfolding ys by (rule reordered.step)
qed

text \<open>
  C3, as stated, fails: when two keys of one object have the same lower-casing, the
  one visited later overwrites the other, so the order decides. The two inputs below
  hold the same three properties; normalization and construction give \<open>m2\<close> for one
  order and \<open>m1\<close> for the other.
\<close>

theorem key_order_counterexample:
  "mset [(str ''MeetingId'', JString (str ''m1'')), (str ''meetingid'', JString (str ''m2'')),
         (str ''MediaPlacement'', JObject [])] =
   mset [(str ''meetingid'', JString (str ''m2'')), (str ''MeetingId'', JString (str ''m1'')),
         (str ''MediaPlacement'', JObject [])]
   \<and> toLowerCasePropertyNames id
       (JObject [(str ''MeetingId'', JString (str ''m1'')), (str ''meetingid'', JString (str ''m2'')),
                 (str ''MediaPlacement'', JObject [])]) (str ''meetingid'') = Some (MString (str ''m2''))
   \<and> toLowerCasePropertyNames id
       (JObject [(str ''meetingid'', JString (str ''m2'')), (str ''MeetingId'', JString (str ''m1'')),
                 (str ''MediaPlacement'', JObject [])]) (str ''meetingid'') = Some (MString (str ''m1''))
   \<and> map_sum id meetingId (MeetingSessionConfiguration_constructor id False
       (JObject [(str ''MeetingId'', JString (str ''m1'')), (str ''meetingid'', JString (str ''m2'')),
                 (str ''MediaPlacement'', JObject [])]) JUndefined) = Inr (VString (str ''m2''))
   \<and> map_sum id meetingId (MeetingSessionConfiguration_constructor id False
       (JObject [(str ''meetingid'', JString (str ''m2'')), (str ''MeetingId'', JString (str ''m1'')),
                 (str ''MediaPlacement'', JObject [])]) JUndefined) = Inr (VString (str ''m1''))"
  by (simp add: constructor_defs Let_def)

text \<open>The same two results, whatever the Unicode conversion is.\<close>

lemma key_order_decides:
  "mset [(str ''MeetingId'', JString (str ''m1'')), (str ''meetingid'', JString (str ''m2'')),
         (str ''MediaPlacement'', JObject [])] =
   mset [(str ''meetingid'', JString (str ''m2'')), (str ''MeetingId'', JString (str ''m1'')),
         (str ''MediaPlacement'', JObject [])]
   \<and> toLowerCasePropertyNames lower
       (JObject [(str ''MeetingId'', JString (str ''m1'')), (str ''meetingid'', JString (str ''m2'')),
                 (str ''MediaPlacement'', JObject [])]) (str ''meetingid'') = Some (MString (str ''m2''))
   \<and> toLowerCasePropertyNames lower
       (JObject [(str ''meetingid'', JString (str ''m2'')), (str ''MeetingId'', JString (str ''m1'')),
                 (str ''MediaPlacement'', JObject [])]) (str ''meetingid'') = Some (MString (str ''m1''))
   \<and> map_sum id meetingId (MeetingSessionConfiguration_constructor lower False
       (JObject [(str ''MeetingId'', JString (str ''m1'')), (str ''meetingid'', JString (str ''m2'')),
                 (str ''MediaPlacement'', JObject [])]) JUndefined) = Inr (VString (str ''m2''))
   \<and> map_sum id meetingId (MeetingSessionConfiguration_constructor lower False
       (JObject [(str ''meetingid'', JString (str ''m2'')), (str ''MeetingId'', JString (str ''m1'')),
                 (str ''MediaPlacement'', JObject [])]) JUndefined) = Inr (VString (str ''m1''))"
  by (simp add: constructor_defs Let_def)

text \<open>
  C3, amended. Normalization depends on the order of keys only through collisions:
  under each lower-cased key the result holds what the last property, in visiting
  order, with that lower-casing and a kept value (a string or a nested structure)
  stores. So two raw structures have the same normalized response exactly when, for
  every lower-cased key, their last such properties store the same value, and then
  construction gives the same result. In particular, for every raw structure and
  every reordering of its keys, at any nesting level, that keeps the relative order
  of keys which have the same lower-casing and store different kept values,
  normalization gives the same normalized response and construction the same result,
  whether the structure is the meeting response or the attendee response; and so
  does every permutation of the properties of an object in which no two properties
  with a kept value have the same lower-cased key.
\<close>

theorem reordering_preserves_result:
  "(reordered lower v w \<longrightarrow>
      toLowerCasePropertyNames lower v = toLowerCasePropertyNames lower w
    \<and> MeetingSessionConfiguration_constructor lower sendsOnlyKeyframes v a =
      MeetingSessionConfiguration_constructor lower sendsOnlyKeyframes w a
    \<and> MeetingSessionConfiguration_constructor lower sendsOnlyKeyframes m v =
      MeetingSessionConfiguration_constructor lower sendsOnlyKeyframes m w)
   \<and> (distinct (map (\<lambda>e. toLowerCase lower (fst e)) (filter (\<lambda>e. kept (snd e)) xs))
        \<and> mset xs = mset ys \<longrightarrow>
      toLowerCasePropertyNames lower (JObject xs) = toLowerCasePropertyNames lower (JObject ys)
    \<and> MeetingSessionConfiguration_constructor lower sendsOnlyKeyframes (JObject xs) a =
      MeetingSessionConfiguration_constructor lower sendsOnlyKeyframes (JObject ys) a
    \<and> MeetingSessionConfiguration_constructor lower sendsOnlyKeyframes m (JObject xs) =
      MeetingSessionConfiguration_constructor lower sendsOnlyKeyframes m (JObject ys))
   \<and> ((\<forall>k'. last_stored lower xs k' = last_stored lower ys k') \<longleftrightarrow>
      toLowerCasePropertyNames lower (JObject xs) = toLowerCasePropertyNames lower (JObject ys))
   \<and> ((\<forall>k'. last_stored lower xs k' = last_stored lower ys k') \<longrightarrow>
      MeetingSessionConfiguration_constructor lower sendsOnlyKeyframes (JObject xs) a =
      MeetingSessionConfiguration_constructor lower sendsOnlyKeyframes (JObject ys) a
    \<and> MeetingSessionConfiguration_constructor lower sendsOnlyKeyframes m (JObject xs) =
      MeetingSessionConfiguration_constructor lower sendsOnlyKeyframes m (JObject ys))"
proof -
  have r: "toLowerCasePropertyNames lower v = toLowerCasePropertyNames lower w
    \<and> MeetingSessionConfiguration_constructor lower sendsOnlyKeyframes v a =
      MeetingSessionConfiguration_constructor lower sendsOnlyKeyframes w a
    \<and> MeetingSessionConfiguration_constructor lower sendsOnlyKeyframes m v =
      MeetingSessionConfiguration_constructor lower sendsOnlyKeyframes m w"
    if "reordered lower v w" for v w
    using reordered_normalization [OF that] reordered_truthy [OF that]
    by (simp add: MeetingSessionConfiguration_constructor_def)
  have l: "(\<forall>k'. last_stored lower xs k' = last_stored lower ys k') \<longleftrightarrow>
      toLowerCasePropertyNames lower (JObject xs) = toLowerCasePropertyNames lower (JObject ys)"
    by (simp add: fun_eq_iff last_property_wins)
  have c: "MeetingSessionConfiguration_constructor lower sendsOnlyKeyframes (JObject xs) a =
      MeetingSessionConfiguration_constructor lower sendsOnlyKeyframes (JObject ys) a
    \<and> MeetingSessionConfiguration_constructor lower sendsOnlyKeyframes m (JObject xs) =
      MeetingSessionConfiguration_constructor lower sendsOnlyKeyframes m (JObject ys)"
    if "toLowerCasePropertyNames lower (JObject xs) = toLowerCasePropertyNames lower (JObject ys)"
    using that by (simp add: MeetingSessionConfiguration_constructor_def)
  from r [of v w] r [of "JObject xs" "JObject ys"] permutation_reordered [of lower xs ys] l c
  show ?thesis by blast
qed

theorem reordering_preserves_result_witness:
  "reordered id
     (JObject [(str ''MeetingId'', JString (str ''m1'')),
               (str ''MediaPlacement'', JObject [(str ''AudioHostUrl'', JString (str ''a'')),
                                             (str ''SignalingUrl'', JString (str ''e''))])])
     (JObject [(str ''MediaPlacement'', JObject [(str ''SignalingUrl'', JString (str ''e'')),
                                             (str ''AudioHostUrl'', JString (str ''a''))]),
               (str ''MeetingId'', JString (str ''m1''))])
   \<and> MeetingSessionConfiguration_constructor id False
       (JObject [(str ''MeetingId'', JString (str ''m1'')),
               (str ''MediaPlacement'', JObject [(str ''AudioHostUrl'', JString (str ''a'')),
                                             (str ''SignalingUrl'', JString (str ''e''))])])
       JUndefined =
     MeetingSessionConfiguration_constructor id False
       (JObject [(str ''MediaPlacement'', JObject [(str ''SignalingUrl'', JString (str ''e'')),
                                             (str ''AudioHostUrl'', JString (str ''a''))]),
               (str ''MeetingId'', JString (str ''m1''))]) JUndefined
   \<and> distinct (map (\<lambda>e. toLowerCase id (fst e)) (filter (\<lambda>e. kept (snd e))
        [(str ''AttendeeId'', JString (str ''x'')), (str ''attendeeid'', JNumber 5),
         (str ''JoinToken'', JString (str ''t''))]))
   \<and> mset [(str ''AttendeeId'', JString (str ''x'')), (str ''attendeeid'', JNumber 5),
            (str ''JoinToken'', JString (str ''t''))] =
     mset [(str ''JoinToken'', JString (str ''t'')), (str ''attendeeid'', JNumber 5),
           (str ''AttendeeId'', JString (str ''x''))]
   \<and> MeetingSessionConfiguration_constructor id False JUndefined
       (JObject [(str ''AttendeeId'', JString (str ''x'')), (str ''attendeeid'', JNumber 5),
                 (str ''JoinToken'', JString (str ''t''))]) =
     MeetingSessionConfiguration_constructor id False JUndefined
       (JObject [(str ''JoinToken'', JString (str ''t'')), (str ''attendeeid'', JNumber 5),
                 (str ''AttendeeId'', JString (str ''x''))])
   \<and> MeetingSessionConfiguration_constructor id False JUndefined
       (JObject [(str ''JoinToken'', JString (str ''a'')), (str ''jointoken'', JString (str ''b'')),
                 (str ''JOINTOKEN'', JString (str ''t''))]) =
     MeetingSessionConfiguration_constructor id False JUndefined
       (JObject [(str ''jointoken'', JString (str ''b'')), (str ''JoinToken'', JString (str ''a'')),
                 (str ''JOINTOKEN'', JString (str ''t''))])"
proof -
  let ?xs3 = "[(str ''JoinToken'', JString (str ''a'')), (str ''jointoken'', JString (str ''b'')),
               (str ''JOINTOKEN'', JString (str ''t''))]"
  let ?ys3 = "[(str ''jointoken'', JString (str ''b'')), (str ''JoinToken'', JString (str ''a'')),
               (str ''JOINTOKEN'', JString (str ''t''))]"
  have lc3: "toLowerCase id (str ''JoinToken'') = str ''jointoken''"
    "toLowerCase id (str ''jointoken'') = str ''jointoken''"
    "toLowerCase id (str ''JOINTOKEN'') = str ''jointoken''"
    by (simp_all add: toLowerCase_def toLowerCase_ascii_def str_def)
  have l3: "\<forall>k'. last_stored id ?xs3 k' = last_stored id ?ys3 k'"
    by (simp add: last_stored_def lc3)
  let ?mp = "JObject [(str ''AudioHostUrl'', JString (str ''a'')),
                      (str ''SignalingUrl'', JString (str ''e''))]"
  let ?mp' = "JObject [(str ''SignalingUrl'', JString (str ''e'')),
                       (str ''AudioHostUrl'', JString (str ''a''))]"
  let ?xs = "[(str ''AttendeeId'', JString (str ''x'')), (str ''attendeeid'', JNumber 5),
              (str ''JoinToken'', JString (str ''t''))]"
  let ?ys = "[(str ''JoinToken'', JString (str ''t'')), (str ''attendeeid'', JNumber 5),
              (str ''AttendeeId'', JString (str ''x''))]"
  have "toLowerCase id (fst (str ''MeetingId'', JString (str ''m1''))) \<noteq>
        toLowerCase id (fst (str ''MediaPlacement'', ?mp))
        \<or> \<not> kept (snd (str ''MeetingId'', JString (str ''m1'')))
        \<or> \<not> kept (snd (str ''MediaPlacement'', ?mp))
        \<or> stored_value id (snd (str ''MeetingId'', JString (str ''m1''))) =
          stored_value id (snd (str ''MediaPlacement'', ?mp))"
    by (simp add: toLowerCase_def toLowerCase_ascii_def str_def)
  from reordered.swap [OF this, of "[]" "[]"]
  have 1: "reordered id (JObject [(str ''MeetingId'', JString (str ''m1'')),
                                  (str ''MediaPlacement'', ?mp)])
                     (JObject [(str ''MediaPlacement'', ?mp),
                               (str ''MeetingId'', JString (str ''m1''))])"
    by simp
  have "toLowerCase id (fst (str ''AudioHostUrl'', JString (str ''a''))) \<noteq>
        toLowerCase id (fst (str ''SignalingUrl'', JString (str ''e'')))
        \<or> \<not> kept (snd (str ''AudioHostUrl'', JString (str ''a'')))
        \<or> \<not> kept (snd (str ''SignalingUrl'', JString (str ''e'')))
        \<or> stored_value id (snd (str ''AudioHostUrl'', JString (str ''a''))) =
          stored_value id (snd (str ''SignalingUrl'', JString (str ''e'')))"
    by (simp add: toLowerCase_def toLowerCase_ascii_def str_def)
  from reordered.swap [OF this, of "[]" "[]"] have "reordered id ?mp ?mp'" by simp
  from reordered.inside [OF this, of "[]" "str ''MediaPlacement''"
         "[(str ''MeetingId'', JString (str ''m1''))]"]
  have 2: "reordered id (JObject [(str ''MediaPlacement'', ?mp),
                                  (str ''MeetingId'', JString (str ''m1''))])
                     (JObject [(str ''MediaPlacement'', ?mp'),
                               (str ''MeetingId'', JString (str ''m1''))])"
    by simp
  from 1 2 have r: "reordered id
       (JObject [(str ''MeetingId'', JString (str ''m1'')), (str ''MediaPlacement'', ?mp)])
       (JObject [(str ''MediaPlacement'', ?mp'), (str ''MeetingId'', JString (str ''m1''))])"
    by (rule reordered.step)
  have d: "distinct (map (\<lambda>e. toLowerCase id (fst e)) (filter (\<lambda>e. kept (snd e)) ?xs))"
    by (simp add: toLowerCase_def toLowerCase_ascii_def str_def)
  have p: "mset ?xs = mset ?ys"
    by (simp add: str_def)
  from reordering_preserves_result
         [of id "JObject [(str ''MeetingId'', JString (str ''m1'')),
                          (str ''MediaPlacement'', ?mp)]"
             "JObject [(str ''MediaPlacement'', ?mp'),
                       (str ''MeetingId'', JString (str ''m1''))]"
             False JUndefined JUndefined ?xs ?ys]
       r d p
       reordering_preserves_result [of id JUndefined JUndefined False JUndefined JUndefined
          ?xs3 ?ys3] l3
  show ?thesis by blast
qed

end
